theory Spec2Isabelle
  imports Main "HOL-Library.Word"
begin

unbundle bit_operations_syntax

section \<open>Machine types\<close>

text \<open>
  The C types of the sources. A signed type is the word of its width, read with
  \<open>sint\<close> where the source compares or tests the sign; a conversion between widths is
  \<open>ucast\<close> (the low bits are kept, as gcc does on every Linux target).
\<close>

type_synonym u8 = "8 word"
type_synonym u32 = "32 word"
type_synonym u64 = "64 word"
type_synonym s64 = "64 word"
type_synonym cint = "32 word"
type_synonym ktime_t = "64 word"

section \<open>Sequence arithmetic (net/dccp/dccp.h)\<close>

text \<open>\<open>before48\<close>, \<open>after48\<close>: the sign of the difference of the operands shifted into
  the top 48 bits of a 64-bit register.\<close>

definition before48 :: "u64 \<Rightarrow> u64 \<Rightarrow> bool" where
  "before48 seq1 seq2 = (sint (push_bit 16 seq1 - push_bit 16 seq2) < 0)"

definition after48 :: "u64 \<Rightarrow> u64 \<Rightarrow> bool" where
  "after48 seq1 seq2 = (sint (push_bit 16 seq2 - push_bit 16 seq1) < 0)"

text \<open>\<open>dccp_delta_seqno\<close> returns \<open>u64\<close> in this header: the shift right is logical, the
  result lies in \<open>[0, 2^48)\<close>.\<close>

definition dccp_delta_seqno :: "u64 \<Rightarrow> u64 \<Rightarrow> u64" where
  "dccp_delta_seqno seqno1 seqno2 = drop_bit 16 (push_bit 16 seqno2 - push_bit 16 seqno1)"

section \<open>Packets and receiver history (ccids/lib/packet_history.h)\<close>

text \<open>What the history routines read of a received \<open>sk_buff\<close>: the sequence number of
  its control block and the CCVal and type nibbles of its DCCP header.\<close>

record sk_buff =
  dccpd_seq :: u64
  dccph_ccval :: "4 word"
  dccph_type :: "4 word"

record tfrc_rx_hist_entry =
  tfrchrx_seqno :: "48 word"
  tfrchrx_ccval :: "4 word"
  tfrchrx_type :: "4 word"
  tfrchrx_ndp :: u32
  tfrchrx_tstamp :: ktime_t

text \<open>
  \<open>ring\<close> is an array of \<open>TFRC_NDUPACK + 1 = 4\<close> pointers to entries allocated one by
  one, so no two slots alias: the array is a total function from the 2-bit slot number
  to the entry stored there, and exchanging two pointers exchanges the two values.
  \<open>loss_count\<close> and \<open>loss_start\<close> are 2-bit fields. \<open>rtt_sample_prev\<close> is a
  preprocessor alias of \<open>loss_start\<close>: the same field under a second name.
\<close>

record tfrc_rx_hist =
  ring :: "2 word \<Rightarrow> tfrc_rx_hist_entry"
  loss_count :: "2 word"
  loss_start :: "2 word"

abbreviation (input) rtt_sample_prev :: "tfrc_rx_hist \<Rightarrow> 2 word" where
  "rtt_sample_prev h \<equiv> loss_start h"

definition TFRC_NDUPACK :: nat where
  "TFRC_NDUPACK = 3"

text \<open>
  Modelled from the spec: the inline accessors \<open>tfrc_rx_hist_index\<close>,
  \<open>tfrc_rx_hist_entry\<close>, \<open>tfrc_rx_hist_loss_prev\<close> and \<open>tfrc_rx_hist_last_rcv\<close> are used by
  packet_history.c but declared nowhere under src. The spec gives
  \<open>entry(i) = ring[(loss_start + i) mod 4]\<close>, entry 0 as the anchor (\<open>loss_prev\<close>), and the
  last received slot as slot 0 relative to the current anchor. The theorems below read
  or write the last received slot only while \<open>loss_count\<close> is 0, when no other entry is
  tracked.
\<close>

definition tfrc_rx_hist_index :: "tfrc_rx_hist \<Rightarrow> nat \<Rightarrow> 2 word" where
  "tfrc_rx_hist_index h n = word_of_nat ((unat (loss_start h) + n) mod (TFRC_NDUPACK + 1))"

definition tfrc_rx_hist_entry :: "tfrc_rx_hist \<Rightarrow> nat \<Rightarrow> tfrc_rx_hist_entry" where
  "tfrc_rx_hist_entry h n = ring h (tfrc_rx_hist_index h n)"

definition tfrc_rx_hist_loss_prev :: "tfrc_rx_hist \<Rightarrow> tfrc_rx_hist_entry" where
  "tfrc_rx_hist_loss_prev h = ring h (loss_start h)"

definition tfrc_rx_hist_last_rcv_index :: "tfrc_rx_hist \<Rightarrow> 2 word" where
  "tfrc_rx_hist_last_rcv_index h = tfrc_rx_hist_index h 0"

definition tfrc_rx_hist_last_rcv :: "tfrc_rx_hist \<Rightarrow> tfrc_rx_hist_entry" where
  "tfrc_rx_hist_last_rcv h = ring h (tfrc_rx_hist_last_rcv_index h)"

section \<open>Receiver history routines (ccids/lib/packet_history.c)\<close>

text \<open>\<open>tfrc_rx_hist_entry_from_skb\<close> overwrites all five fields of the entry it is given;
  the time stamp is the clock reading \<open>now\<close> of \<open>ktime_get_real()\<close>. The 48-bit field
  keeps the low 48 bits of the sequence number.\<close>

definition tfrc_rx_hist_entry_from_skb :: "sk_buff \<Rightarrow> u32 \<Rightarrow> ktime_t \<Rightarrow> tfrc_rx_hist_entry" where
  "tfrc_rx_hist_entry_from_skb skb ndp now =
     \<lparr>tfrchrx_seqno = ucast (dccpd_seq skb),
      tfrchrx_ccval = dccph_ccval skb,
      tfrchrx_type = dccph_type skb,
      tfrchrx_ndp = ndp,
      tfrchrx_tstamp = now\<rparr>"

definition tfrc_rx_hist_add_packet :: "tfrc_rx_hist \<Rightarrow> sk_buff \<Rightarrow> u32 \<Rightarrow> ktime_t \<Rightarrow> tfrc_rx_hist" where
  "tfrc_rx_hist_add_packet h skb ndp now =
     h\<lparr>ring := (ring h)(tfrc_rx_hist_last_rcv_index h := tfrc_rx_hist_entry_from_skb skb ndp now)\<rparr>"

text \<open>The loop \<open>for (i = 1; i <= h->loss_count; i++)\<close> of \<open>tfrc_rx_hist_duplicate\<close>.\<close>

function duplicate_loop :: "tfrc_rx_hist \<Rightarrow> u64 \<Rightarrow> nat \<Rightarrow> cint" where
  "duplicate_loop h seq i =
     (if i \<le> unat (loss_count h)
      then (if ucast (tfrchrx_seqno (tfrc_rx_hist_entry h i)) = seq then 1
            else duplicate_loop h seq (i + 1))
      else 0)"
  by pat_completeness auto
termination
  by (relation "measure (\<lambda>(h, seq, i). Suc (unat (loss_count h)) - i)") auto

declare duplicate_loop.simps [simp del]

text \<open>The comparison \<open>dccp_delta_seqno(...) <= 0\<close> is on the \<open>u64\<close> the function
  returns: an unsigned comparison.\<close>

definition tfrc_rx_hist_duplicate :: "tfrc_rx_hist \<Rightarrow> sk_buff \<Rightarrow> cint" where
  "tfrc_rx_hist_duplicate h skb =
     (let seq = dccpd_seq skb in
      if dccp_delta_seqno (ucast (tfrchrx_seqno (tfrc_rx_hist_loss_prev h))) seq \<le> 0 then 1
      else duplicate_loop h seq 1)"

text \<open>\<open>tfrc_rx_hist_loss_indicated\<close> and \<open>tfrc_rx_hist_loss_pending\<close>.\<close>

definition tfrc_rx_hist_loss_indicated :: "tfrc_rx_hist \<Rightarrow> tfrc_rx_hist" where
  "tfrc_rx_hist_loss_indicated h = h\<lparr>loss_count := 1\<rparr>"

definition tfrc_rx_hist_loss_pending :: "tfrc_rx_hist \<Rightarrow> cint" where
  "tfrc_rx_hist_loss_pending h = ucast (loss_count h)"

text \<open>
  In \<open>tfrc_rx_hist_new_loss_indicated\<close> the \<open>u64\<close> distance is stored in an \<open>int\<close>;
  \<open>delta > 1\<close> is a signed comparison, and \<open>ndp < delta\<close> compares the \<open>u32\<close> \<open>ndp\<close>
  with the \<open>int\<close> converted to unsigned. The result is the new \<open>loss_count\<close>.
\<close>

definition tfrc_rx_hist_new_loss_indicated :: "tfrc_rx_hist \<Rightarrow> sk_buff \<Rightarrow> u32 \<Rightarrow> cint \<times> tfrc_rx_hist" where
  "tfrc_rx_hist_new_loss_indicated h skb ndp =
     (let delta = (ucast (dccp_delta_seqno (ucast (tfrchrx_seqno (tfrc_rx_hist_last_rcv h)))
                                           (dccpd_seq skb)) :: cint);
          h' = (if word_sless 1 delta \<and> ndp < delta then tfrc_rx_hist_loss_indicated h else h)
      in (tfrc_rx_hist_loss_pending h', h'))"

text \<open>Writing through the pointer \<open>ring[idx]\<close>, and \<open>tfrc_rx_hist_swap\<close>.\<close>

definition rx_hist_store :: "tfrc_rx_hist \<Rightarrow> 2 word \<Rightarrow> tfrc_rx_hist_entry \<Rightarrow> tfrc_rx_hist" where
  "rx_hist_store h idx e = h\<lparr>ring := (ring h)(idx := e)\<rparr>"

definition tfrc_rx_hist_swap :: "tfrc_rx_hist \<Rightarrow> nat \<Rightarrow> nat \<Rightarrow> tfrc_rx_hist" where
  "tfrc_rx_hist_swap h a b =
     (let idx_a = tfrc_rx_hist_index h a;
          idx_b = tfrc_rx_hist_index h b;
          tmp = ring h idx_a;
          h1 = h\<lparr>ring := (ring h)(idx_a := ring h idx_b)\<rparr>
      in h1\<lparr>ring := (ring h1)(idx_b := tmp)\<rparr>)"

text \<open>
  \<open>__one_after_loss\<close>. \<open>n2\<close> is \<open>u32\<close>, so \<open>n2 >= d2\<close> is unsigned; \<open>n1\<close> and \<open>d21\<close>
  are \<open>int\<close>, so \<open>n1 >= d21\<close> is signed.
\<close>

definition one_after_loss :: "tfrc_rx_hist \<Rightarrow> sk_buff \<Rightarrow> u32 \<Rightarrow> ktime_t \<Rightarrow> tfrc_rx_hist" where
  "one_after_loss h skb n2 now =
     (let s0 = (ucast (tfrchrx_seqno (tfrc_rx_hist_loss_prev h)) :: u64);
          s1 = (ucast (tfrchrx_seqno (tfrc_rx_hist_entry h 1)) :: u64);
          s2 = dccpd_seq skb;
          n1 = (tfrchrx_ndp (tfrc_rx_hist_entry h 1) :: cint);
          d12 = (ucast (dccp_delta_seqno s1 s2) :: cint)
      in if word_sless 0 d12 then
           rx_hist_store (h\<lparr>loss_count := 2\<rparr>) (tfrc_rx_hist_index h 2)
             (tfrc_rx_hist_entry_from_skb skb n2 now)
         else
           let d2 = (ucast (dccp_delta_seqno s0 s2) :: cint)
           in if d2 = 1 \<or> d2 \<le> n2 then
                let d21 = - d12
                in if d21 = 1 \<or> word_sle d21 n1 then
                     h\<lparr>loss_count := 0, loss_start := tfrc_rx_hist_index h 1\<rparr>
                   else
                     rx_hist_store h (loss_start h) (tfrc_rx_hist_entry_from_skb skb n2 now)
              else
                let h1 = tfrc_rx_hist_swap h 0 3;
                    h2 = h1\<lparr>loss_start := tfrc_rx_hist_index h1 3\<rparr>;
                    h3 = rx_hist_store h2 (tfrc_rx_hist_index h2 1)
                           (tfrc_rx_hist_entry_from_skb skb n2 now)
                in h3\<lparr>loss_count := 2\<rparr>)"

text \<open>\<open>__two_after_loss\<close>: the result is 1 if a new loss event has been identified.\<close>

definition two_after_loss :: "tfrc_rx_hist \<Rightarrow> sk_buff \<Rightarrow> u32 \<Rightarrow> ktime_t \<Rightarrow> cint \<times> tfrc_rx_hist" where
  "two_after_loss h skb n3 now =
     (let s0 = (ucast (tfrchrx_seqno (tfrc_rx_hist_loss_prev h)) :: u64);
          s1 = (ucast (tfrchrx_seqno (tfrc_rx_hist_entry h 1)) :: u64);
          s2 = (ucast (tfrchrx_seqno (tfrc_rx_hist_entry h 2)) :: u64);
          s3 = dccpd_seq skb;
          n1 = (tfrchrx_ndp (tfrc_rx_hist_entry h 1) :: cint);
          d23 = (ucast (dccp_delta_seqno s2 s3) :: cint)
      in if word_sless 0 d23 then
           (1, rx_hist_store (h\<lparr>loss_count := 3\<rparr>) (tfrc_rx_hist_index h 3)
                 (tfrc_rx_hist_entry_from_skb skb n3 now))
         else
           let d13 = (ucast (dccp_delta_seqno s1 s3) :: cint)
           in if word_sless 0 d13 then
                let h1 = tfrc_rx_hist_swap h 2 3;
                    h2 = rx_hist_store h1 (tfrc_rx_hist_index h1 2)
                           (tfrc_rx_hist_entry_from_skb skb n3 now)
                in (1, h2\<lparr>loss_count := 3\<rparr>)
              else
                let d31 = - d13;
                    d3 = (ucast (dccp_delta_seqno s0 s3) :: cint)
                in if d3 = 1 \<or> d3 \<le> n3 then
                     (0, if d31 = 1 \<or> word_sle d31 n1 then
                           let d2 = (ucast (dccp_delta_seqno s1 s2) :: cint);
                               n2 = (tfrchrx_ndp (tfrc_rx_hist_entry h 2) :: cint)
                           in if d2 = 1 \<or> word_sle d2 n2 then
                                h\<lparr>loss_start := tfrc_rx_hist_index h 2, loss_count := 0\<rparr>
                              else
                                h\<lparr>loss_start := tfrc_rx_hist_index h 1, loss_count := 1\<rparr>
                         else
                           rx_hist_store h (loss_start h) (tfrc_rx_hist_entry_from_skb skb n3 now))
                   else
                     let h1 = tfrc_rx_hist_swap h 0 3;
                         h2 = h1\<lparr>loss_start := tfrc_rx_hist_index h1 3\<rparr>;
                         h3 = rx_hist_store h2 (tfrc_rx_hist_index h2 1)
                                (tfrc_rx_hist_entry_from_skb skb n3 now)
                     in (1, h3\<lparr>loss_count := 3\<rparr>))"

section \<open>Effects outside the history\<close>

text \<open>
  Modelled from the spec: the macros \<open>DCCP_BUG\<close>, \<open>DCCP_BUG_ON\<close> and \<open>DCCP_WARN\<close> are used
  by packet_history.c but defined nowhere under src. The spec has them report the fault
  (log it) and go on, so each is an event appended to the log of the call, after which
  the routine continues. The call of the loss interval database is an event too, with
  the history as the database sees it.
\<close>

datatype event =
    BUG_invalid_loss_count "2 word"
  | BUG_ON_delta_seqno nat nat
  | BUG_rtt_prev_last "4 word" "4 word"
  | WARN_rtt_too_large u32
  | LH_INTERVAL_ADD tfrc_rx_hist

text \<open>\<open>tfrc_rx_hist_delta_seqno\<close>: the \<open>u64\<close> distance returned as \<open>s64\<close>.\<close>

definition tfrc_rx_hist_delta_seqno :: "tfrc_rx_hist \<Rightarrow> nat \<Rightarrow> nat \<Rightarrow> s64 \<times> event list" where
  "tfrc_rx_hist_delta_seqno h e1 e2 =
     (dccp_delta_seqno (ucast (tfrchrx_seqno (tfrc_rx_hist_entry h e1)))
                       (ucast (tfrchrx_seqno (tfrc_rx_hist_entry h e2))),
      if e1 > unat (loss_count h) \<or> e2 > unat (loss_count h) then [BUG_ON_delta_seqno e1 e2] else [])"

text \<open>\<open>__three_after_loss\<close>: all four locals are \<open>int\<close>, the comparisons are signed.\<close>

definition three_after_loss :: "tfrc_rx_hist \<Rightarrow> tfrc_rx_hist \<times> event list" where
  "three_after_loss h =
     (let (r2, ev2) = tfrc_rx_hist_delta_seqno h 1 2;
          (r3, ev3) = tfrc_rx_hist_delta_seqno h 2 3;
          d2 = (ucast r2 :: cint);
          d3 = (ucast r3 :: cint);
          n2 = (tfrchrx_ndp (tfrc_rx_hist_entry h 2) :: cint);
          n3 = (tfrchrx_ndp (tfrc_rx_hist_entry h 3) :: cint)
      in (if d2 = 1 \<or> word_sle d2 n2 then
            (if d3 = 1 \<or> word_sle d3 n3 then
               h\<lparr>loss_start := tfrc_rx_hist_index h 3, loss_count := 0\<rparr>
             else
               h\<lparr>loss_start := tfrc_rx_hist_index h 2, loss_count := 1\<rparr>)
          else
            h\<lparr>loss_start := tfrc_rx_hist_index h 1, loss_count := 2\<rparr>,
          ev2 @ ev3))"

text \<open>
  \<open>tfrc_rx_handle_loss\<close>. \<open>tfrc_lh_interval_add\<close> belongs to the loss interval database,
  which is not under src: it is the parameter \<open>lh_interval_add\<close>, a function of the
  database \<open>lh\<close> and the history it is shown (with \<open>calc_first_li\<close> and \<open>sk\<close>, which are
  only handed through, fixed in it), giving its \<open>int\<close> result and the new database.
  The results are \<open>is_new_loss\<close>, the history, the database and the events of the call
  in the order they happen.
\<close>

definition tfrc_rx_handle_loss ::
  "('lh \<Rightarrow> tfrc_rx_hist \<Rightarrow> cint \<times> 'lh) \<Rightarrow> tfrc_rx_hist \<Rightarrow> 'lh \<Rightarrow> sk_buff \<Rightarrow> u32 \<Rightarrow> ktime_t
     \<Rightarrow> cint \<times> tfrc_rx_hist \<times> 'lh \<times> event list" where
  "tfrc_rx_handle_loss lh_interval_add h lh skb ndp now =
     (if loss_count h = 1 then
        (0, one_after_loss h skb ndp now, lh, [])
      else if loss_count h \<noteq> 2 then
        (0, h, lh, [BUG_invalid_loss_count (loss_count h)])
      else
        let (r, h2) = two_after_loss h skb ndp now
        in if r \<noteq> 0 then
             let (is_new_loss, lh') = lh_interval_add lh h2;
                 (h3, evs) = three_after_loss h2
             in (is_new_loss, h3, lh', LH_INTERVAL_ADD h2 # evs)
           else (0, h2, lh, []))"

text \<open>\<open>tfrc_rx_hist_alloc\<close>: the four entries come from \<open>kmem_cache_alloc\<close> with whatever
  the memory holds (\<open>mem\<close>); \<open>ok\<close> says whether all four allocations succeed.\<close>

datatype errno = ENOBUFS

definition tfrc_rx_hist_alloc :: "bool \<Rightarrow> (2 word \<Rightarrow> tfrc_rx_hist_entry) \<Rightarrow> errno + tfrc_rx_hist" where
  "tfrc_rx_hist_alloc ok mem =
     (if ok then Inr \<lparr>ring = mem, loss_count = 0, loss_start = 0\<rparr> else Inl ENOBUFS)"

section \<open>RTT sampling\<close>

text \<open>
  Modelled from the spec: the kernel's \<open>ktime\<close> interface and \<open>DCCP_SANE_RTT_MAX\<close> are not
  under src. The spec keeps arrival time stamps and samples in microseconds, so a
  \<open>ktime_t\<close> is a signed 64-bit count of microseconds, \<open>ktime_us_delta\<close> a difference and
  \<open>ktime_to_us\<close> the identity; \<open>net_timedelta\<close> is the time since its argument on the
  clock reading \<open>now\<close>. The sanity maximum is the parameter \<open>sane_rtt_max\<close>.
\<close>

definition ktime_us_delta :: "ktime_t \<Rightarrow> ktime_t \<Rightarrow> s64" where
  "ktime_us_delta later earlier = later - earlier"

definition net_timedelta :: "ktime_t \<Rightarrow> ktime_t \<Rightarrow> ktime_t" where
  "net_timedelta now t = now - t"

definition ktime_to_us :: "ktime_t \<Rightarrow> s64" where
  "ktime_to_us kt = kt"

text \<open>\<open>SUB16(a, b) = ((a) + 16 - (b)) & 0xF\<close>, computed in \<open>int\<close> on two 4-bit fields
  and stored in a \<open>u32\<close>.\<close>

definition SUB16 :: "4 word \<Rightarrow> 4 word \<Rightarrow> u32" where
  "SUB16 a b = (ucast a + 16 - ucast b) AND 0xF"

text \<open>Unsigned division traps on a zero divisor.\<close>

datatype fault = DivideError

definition udiv32 :: "u32 \<Rightarrow> u32 \<Rightarrow> fault + u32" where
  "udiv32 a b = (if b = 0 then Inl DivideError else Inr (a div b))"

definition tfrc_rx_hist_rtt_last_s :: "tfrc_rx_hist \<Rightarrow> tfrc_rx_hist_entry" where
  "tfrc_rx_hist_rtt_last_s h = ring h 0"

definition tfrc_rx_hist_rtt_prev_s :: "tfrc_rx_hist \<Rightarrow> tfrc_rx_hist_entry" where
  "tfrc_rx_hist_rtt_prev_s h = ring h (rtt_sample_prev h)"

text \<open>The tail of \<open>tfrc_rx_hist_sample_rtt\<close> that the two \<open>goto keep_ref_for_next_time\<close>
  skip: the sanity clamp and the reset of \<open>rtt_sample_prev\<close>.\<close>

definition sample_rtt_finish :: "u32 \<Rightarrow> tfrc_rx_hist \<Rightarrow> u32 \<Rightarrow> event list \<Rightarrow> u32 \<times> tfrc_rx_hist \<times> event list" where
  "sample_rtt_finish sane_rtt_max h sample evs =
     (if sample > sane_rtt_max
      then (sane_rtt_max, h\<lparr>loss_start := 0\<rparr>, evs @ [WARN_rtt_too_large sample])
      else (sample, h\<lparr>loss_start := 0\<rparr>, evs))"

text \<open>
  \<open>tfrc_rx_hist_sample_rtt\<close>. In \<open>4 / sample * ktime_us_delta(...)\<close> the quotient is
  \<open>u32\<close>, the product is taken in \<open>s64\<close> and stored in the \<open>u32\<close> \<open>sample\<close>.
\<close>

definition tfrc_rx_hist_sample_rtt ::
  "u32 \<Rightarrow> tfrc_rx_hist \<Rightarrow> sk_buff \<Rightarrow> ktime_t \<Rightarrow> fault + (u32 \<times> tfrc_rx_hist \<times> event list)" where
  "tfrc_rx_hist_sample_rtt sane_rtt_max h skb now =
     (let delta_v = SUB16 (dccph_ccval skb) (tfrchrx_ccval (tfrc_rx_hist_rtt_last_s h))
      in if delta_v < 1 \<or> delta_v > 4 then
           (if rtt_sample_prev h = 2 then
              let sample = SUB16 (tfrchrx_ccval (tfrc_rx_hist_rtt_prev_s h))
                                 (tfrchrx_ccval (tfrc_rx_hist_rtt_last_s h))
              in if sample \<noteq> 0 then
                   (case udiv32 4 sample of
                      Inl f \<Rightarrow> Inl f
                    | Inr q \<Rightarrow>
                        Inr (sample_rtt_finish sane_rtt_max h
                               (ucast ((ucast q :: s64) *
                                  ktime_us_delta (tfrchrx_tstamp (tfrc_rx_hist_rtt_prev_s h))
                                                 (tfrchrx_tstamp (tfrc_rx_hist_rtt_last_s h))))
                               []))
                 else
                   Inr (sample_rtt_finish sane_rtt_max h 0
                          [BUG_rtt_prev_last (tfrchrx_ccval (tfrc_rx_hist_rtt_prev_s h))
                                             (tfrchrx_ccval (tfrc_rx_hist_rtt_last_s h))])
            else if delta_v < 1 then
              Inr (0, h\<lparr>loss_start := 1\<rparr>, [])
            else
              Inr (sample_rtt_finish sane_rtt_max h 0 []))
         else if delta_v = 4 then
           Inr (sample_rtt_finish sane_rtt_max h
                  (ucast (ktime_to_us (net_timedelta now (tfrchrx_tstamp (tfrc_rx_hist_rtt_last_s h)))))
                  [])
         else
           Inr (0, h\<lparr>loss_start := 2\<rparr>, []))"

section \<open>Transmitter history\<close>

text \<open>
  The singly linked list of \<open>tfrc_tx_hist_entry\<close>, newest first: a \<open>next\<close> pointer is the
  rest of the list, \<open>NULL\<close> the empty list.
\<close>

record tfrc_tx_hist_entry =
  seqno :: u64
  stamp :: ktime_t

text \<open>\<open>tfrc_tx_hist_find_entry\<close> walks \<open>head\<close> down the list and returns it: the list
  from the first match on.\<close>

fun tfrc_tx_hist_find_entry :: "tfrc_tx_hist_entry list \<Rightarrow> u64 \<Rightarrow> tfrc_tx_hist_entry list" where
  "tfrc_tx_hist_find_entry [] sq = []"
| "tfrc_tx_hist_find_entry (e # es) sq =
     (if seqno e \<noteq> sq then tfrc_tx_hist_find_entry es sq else e # es)"

definition tfrc_tx_hist_add :: "bool \<Rightarrow> tfrc_tx_hist_entry list \<Rightarrow> u64 \<Rightarrow> ktime_t \<Rightarrow> errno + tfrc_tx_hist_entry list" where
  "tfrc_tx_hist_add ok headp sq now =
     (if \<not> ok then Inl ENOBUFS else Inr (\<lparr>seqno = sq, stamp = now\<rparr> # headp))"

text \<open>\<open>tfrc_tx_hist_purge\<close> frees every entry of the list it is given and leaves \<open>NULL\<close>.\<close>

fun tfrc_tx_hist_purge :: "tfrc_tx_hist_entry list \<Rightarrow> tfrc_tx_hist_entry list" where
  "tfrc_tx_hist_purge [] = []"
| "tfrc_tx_hist_purge (e # es) = tfrc_tx_hist_purge es"

text \<open>
  \<open>tfrc_tx_hist_rtt\<close>: \<open>packet\<close> is a node of the list \<open>head\<close>, and the purge of
  \<open>packet->next\<close> changes that node in place. The list after the call is the nodes down
  to and with \<open>packet\<close>, followed by what the purge leaves of the older ones.
\<close>

definition tfrc_tx_hist_rtt :: "tfrc_tx_hist_entry list \<Rightarrow> u64 \<Rightarrow> ktime_t \<Rightarrow> u32 \<times> tfrc_tx_hist_entry list" where
  "tfrc_tx_hist_rtt head sq now =
     (case tfrc_tx_hist_find_entry head sq of
        [] \<Rightarrow> (0, head)
      | packet # older \<Rightarrow>
          (ucast (ktime_us_delta now (stamp packet)),
           take (length head - length older) head @ tfrc_tx_hist_purge older))"

section \<open>Sequences of operations and the ordering of the tracked entries\<close>

text \<open>
  The operations of the receiver history as a caller issues them, one after the other,
  on the history and the loss interval database. \<open>tfrc_rx_hist_duplicate\<close> only reads;
  of the other routines the results are dropped and the history is kept.
\<close>

datatype rx_op =
    Add_packet sk_buff u32 ktime_t
  | Duplicate sk_buff
  | New_loss_indicated sk_buff u32
  | Handle_loss sk_buff u32 ktime_t
  | Sample_rtt sk_buff ktime_t

fun rx_step ::
  "('lh \<Rightarrow> tfrc_rx_hist \<Rightarrow> cint \<times> 'lh) \<Rightarrow> u32 \<Rightarrow> tfrc_rx_hist \<times> 'lh \<Rightarrow> rx_op \<Rightarrow> tfrc_rx_hist \<times> 'lh" where
  "rx_step f m (h, lh) (Add_packet skb ndp now) = (tfrc_rx_hist_add_packet h skb ndp now, lh)"
| "rx_step f m (h, lh) (Duplicate skb) = (let r = tfrc_rx_hist_duplicate h skb in (h, lh))"
| "rx_step f m (h, lh) (New_loss_indicated skb ndp) =
     (snd (tfrc_rx_hist_new_loss_indicated h skb ndp), lh)"
| "rx_step f m (h, lh) (Handle_loss skb ndp now) =
     (case tfrc_rx_handle_loss f h lh skb ndp now of (r, h', lh', evs) \<Rightarrow> (h', lh'))"
| "rx_step f m (h, lh) (Sample_rtt skb now) =
     (case tfrc_rx_hist_sample_rtt m h skb now of
        Inl e \<Rightarrow> (h, lh)
      | Inr (s, h', evs) \<Rightarrow> (h', lh))"

definition rx_run ::
  "('lh \<Rightarrow> tfrc_rx_hist \<Rightarrow> cint \<times> 'lh) \<Rightarrow> u32 \<Rightarrow> rx_op list \<Rightarrow> tfrc_rx_hist \<times> 'lh \<Rightarrow> tfrc_rx_hist \<times> 'lh" where
  "rx_run f m ops s = foldl (rx_step f m) s ops"

text \<open>The property of the specification: \<open>loss_count\<close> is 0 to 3 and the anchor is not
  after (\<open>after48\<close>) any of the entries 1 to \<open>loss_count\<close>.\<close>

definition anchor_not_after_tracked :: "tfrc_rx_hist \<Rightarrow> bool" where
  "anchor_not_after_tracked h =
     (\<forall>i \<in> {1..unat (loss_count h)}.
        \<not> after48 (ucast (tfrchrx_seqno (tfrc_rx_hist_loss_prev h)))
                   (ucast (tfrchrx_seqno (tfrc_rx_hist_entry h i))))"

definition rx_hist_invariant :: "tfrc_rx_hist \<Rightarrow> bool" where
  "rx_hist_invariant h = (unat (loss_count h) \<in> {0, 1, 2, 3} \<and> anchor_not_after_tracked h)"

text \<open>
  The distance of entry \<open>i\<close> from the anchor, and the ordering that the transitions
  work with: the entries 0 to \<open>loss_count\<close> strictly increase, the last one less than
  \<open>2^31\<close> after the anchor, so that every distance between two of them fits the \<open>int\<close>
  the code stores it in.
\<close>

definition seq_offset :: "tfrc_rx_hist \<Rightarrow> nat \<Rightarrow> int" where
  "seq_offset h i =
     uint (dccp_delta_seqno (ucast (tfrchrx_seqno (tfrc_rx_hist_loss_prev h)))
                            (ucast (tfrchrx_seqno (tfrc_rx_hist_entry h i))))"

definition tracked_ordered :: "tfrc_rx_hist \<Rightarrow> bool" where
  "tracked_ordered h =
     ((\<forall>i \<in> {0..<unat (loss_count h)}. seq_offset h i < seq_offset h (Suc i)) \<and>
      seq_offset h (unat (loss_count h)) < 2 ^ 31)"

text \<open>What the comment above \<open>__one_after_loss\<close> expects of the packet: it is after the
  anchor (here by less than \<open>2^31\<close>) and is none of the tracked entries.\<close>

definition packet_offset :: "tfrc_rx_hist \<Rightarrow> sk_buff \<Rightarrow> int" where
  "packet_offset h skb =
     uint (dccp_delta_seqno (ucast (tfrchrx_seqno (tfrc_rx_hist_loss_prev h))) (dccpd_seq skb))"

definition packet_is_new :: "tfrc_rx_hist \<Rightarrow> sk_buff \<Rightarrow> bool" where
  "packet_is_new h skb =
     (0 < packet_offset h skb \<and> packet_offset h skb < 2 ^ 31 \<and>
      (\<forall>i \<in> {0..unat (loss_count h)}. packet_offset h skb \<noteq> seq_offset h i))"

section \<open>Counting the calls of the loss interval database\<close>

fun is_interval_add :: "event \<Rightarrow> bool" where
  "is_interval_add (LH_INTERVAL_ADD h) = True"
| "is_interval_add (BUG_invalid_loss_count c) = False"
| "is_interval_add (BUG_ON_delta_seqno a b) = False"
| "is_interval_add (BUG_rtt_prev_last p l) = False"
| "is_interval_add (WARN_rtt_too_large s) = False"

definition interval_add_calls :: "event list \<Rightarrow> nat" where
  "interval_add_calls evs = length (filter is_interval_add evs)"

section \<open>Scenario data\<close>

text \<open>The histories and packets of the scenarios of the specification: an entry or a
  packet with a given sequence number and window counter, everything else zero.\<close>

definition entry_of :: "48 word \<Rightarrow> 4 word \<Rightarrow> ktime_t \<Rightarrow> tfrc_rx_hist_entry" where
  "entry_of s c t =
     \<lparr>tfrchrx_seqno = s, tfrchrx_ccval = c, tfrchrx_type = 0, tfrchrx_ndp = 0, tfrchrx_tstamp = t\<rparr>"

definition skb_of :: "u64 \<Rightarrow> 4 word \<Rightarrow> sk_buff" where
  "skb_of s c = \<lparr>dccpd_seq = s, dccph_ccval = c, dccph_type = 0\<rparr>"

text \<open>No gap pending, anchor 100.\<close>

definition scenario_A :: tfrc_rx_hist where
  "scenario_A =
     \<lparr>ring = (\<lambda>i. entry_of 0 0 0)(0 := entry_of 100 0 1000), loss_count = 0, loss_start = 0\<rparr>"

text \<open>One entry pending: anchor 100, then 103.\<close>

definition scenario_B :: tfrc_rx_hist where
  "scenario_B =
     \<lparr>ring = (\<lambda>i. entry_of 0 0 0)(0 := entry_of 100 0 1000, 1 := entry_of 103 0 1003),
      loss_count = 1, loss_start = 0\<rparr>"

text \<open>Two entries pending: anchor 100, then 102 and 103.\<close>

definition scenario_C :: tfrc_rx_hist where
  "scenario_C =
     \<lparr>ring = (\<lambda>i. entry_of 0 0 0)(0 := entry_of 100 0 1000, 1 := entry_of 102 0 1002,
                                     2 := entry_of 103 0 1003),
      loss_count = 2, loss_start = 0\<rparr>"

text \<open>A candidate for RTT sampling stored (\<open>rtt_sample_prev = 2\<close>) whose window counter
  equals that of the reference entry.\<close>

definition scenario_R :: tfrc_rx_hist where
  "scenario_R =
     \<lparr>ring = (\<lambda>i. entry_of 0 0 0)(0 := entry_of 100 5 1000, 2 := entry_of 101 5 1200),
      loss_count = 0, loss_start = 2\<rparr>"

text \<open>A history as \<open>tfrc_rx_hist_alloc\<close> leaves it, on zeroed memory.\<close>

definition alloc_hist :: tfrc_rx_hist where
  "alloc_hist = \<lparr>ring = (\<lambda>i. entry_of 0 0 0), loss_count = 0, loss_start = 0\<rparr>"

text \<open>
  Five packets in order, 100 to 103 and 106, none lost before 103, with window
  counters 0, 1, 4, 4, 4. The first is only recorded; each later one is tested for
  being a duplicate and for indicating a loss, sampled for the RTT and recorded. The
  trace ends when the packet 106 has indicated the loss of 104 and 105.
\<close>

definition in_order_trace :: "rx_op list" where
  "in_order_trace =
     [Add_packet (skb_of 100 0) 0 1000,
      Duplicate (skb_of 101 1), New_loss_indicated (skb_of 101 1) 0,
      Sample_rtt (skb_of 101 1) 1010, Add_packet (skb_of 101 1) 0 1010,
      Duplicate (skb_of 102 4), New_loss_indicated (skb_of 102 4) 0,
      Sample_rtt (skb_of 102 4) 1020, Add_packet (skb_of 102 4) 0 1020,
      Duplicate (skb_of 103 4), New_loss_indicated (skb_of 103 4) 0,
      Sample_rtt (skb_of 103 4) 1030, Add_packet (skb_of 103 4) 0 1030,
      Duplicate (skb_of 106 4), New_loss_indicated (skb_of 106 4) 0]"

text \<open>A loss interval database that only counts its calls and reports a new loss.\<close>

definition lh_count :: "nat \<Rightarrow> tfrc_rx_hist \<Rightarrow> cint \<times> nat" where
  "lh_count lh h = (1, Suc lh)"

text \<open>A transmitter history of three packets, newest first.\<close>

definition tx_chain :: "tfrc_tx_hist_entry list" where
  "tx_chain = [\<lparr>seqno = 5, stamp = 50\<rparr>, \<lparr>seqno = 4, stamp = 40\<rparr>, \<lparr>seqno = 3, stamp = 30\<rparr>]"

section \<open>Facts about the sequence arithmetic\<close>

lemma drop_push16: "drop_bit 16 (push_bit 16 (x :: u64)) = take_bit 48 x"
  by (rule bit_word_eqI) (auto simp: bit_simps)

lemma delta_take_bit: "dccp_delta_seqno a b = take_bit 48 (b - a)"
proof -
  have "push_bit 16 b - push_bit 16 a = push_bit 16 (b - a)"
    by (simp add: push_bit_eq_mult algebra_simps)
  then show ?thesis by (simp add: dccp_delta_seqno_def drop_push16)
qed

lemma uint_delta: "uint (dccp_delta_seqno a b) = take_bit 48 (uint b - uint a)"
  by (simp add: delta_take_bit unsigned_take_bit_eq uint_word_arith_bintrs take_bit_take_bit)

lemma delta_lt: "dccp_delta_seqno a b < 2 ^ 48"
  using take_bit_int_less_exp [of 48 "uint b - uint a"]
  by (simp add: word_less_def uint_delta)

text \<open>The distance as the \<open>int\<close> the loss detection stores it in.\<close>

lemma sint_delta:
  "sint (ucast (dccp_delta_seqno a b) :: cint) = signed_take_bit 31 (uint b - uint a)"
  by (simp add: signed_ucast_eq uint_delta signed_take_bit_take_bit)

lemma delta_eq_0: "dccp_delta_seqno a b = 0 \<longleftrightarrow> take_bit 48 (uint a) = take_bit 48 (uint b)"
proof -
  have "dccp_delta_seqno a b = 0 \<longleftrightarrow> uint (dccp_delta_seqno a b) = 0"
    by (simp add: uint_0_iff)
  also have "\<dots> \<longleftrightarrow> 2 ^ 48 dvd (uint b - uint a)"
    by (simp only: uint_delta take_bit_eq_0_iff)
  also have "\<dots> \<longleftrightarrow> take_bit 48 (uint b) = take_bit 48 (uint a)"
    by (simp only: take_bit_eq_mod mod_eq_dvd_iff)
  finally show ?thesis by auto
qed

lemma uint_ucast48: "uint (ucast (x :: 48 word) :: u64) = uint x"
  using uint_lt2p [of x] by (simp add: unsigned_ucast_eq take_bit_int_eq_self)

lemma uint_lt48: "(b :: u64) < 2 ^ 48 \<Longrightarrow> take_bit 48 (uint b) = uint b"
  by (simp add: word_less_def take_bit_int_eq_self)

lemma delta_eq_0_seq:
  assumes "b < 2 ^ 48"
  shows "dccp_delta_seqno (ucast (a :: 48 word)) b = 0 \<longleftrightarrow> b = ucast a"
proof -
  have "take_bit 48 (uint (ucast a :: u64)) = uint a"
    using uint_lt2p [of a] by (simp add: uint_ucast48 take_bit_int_eq_self)
  then have "dccp_delta_seqno (ucast a) b = 0 \<longleftrightarrow> uint a = uint b"
    using assms by (simp add: delta_eq_0 uint_lt48)
  also have "\<dots> \<longleftrightarrow> b = ucast a"
    by (auto simp: word_uint_eq_iff uint_ucast48)
  finally show ?thesis .
qed

lemma sint_cint_small:
  fixes d :: u64
  assumes "d < 2 ^ 31"
  shows "sint (ucast d :: cint) = uint d"
proof -
  have u: "uint d < 2 ^ 31" using assms by (simp add: word_less_def)
  have "(- (2 ^ 31) :: int) \<le> 0" by simp
  then have "- (2 ^ 31) \<le> uint d" using uint_ge_0 [of d] by (rule order_trans)
  then have "signed_take_bit 31 (uint d) = uint d"
    using u by (rule signed_take_bit_int_eq_self)
  then show ?thesis
    by (simp add: signed_ucast_eq)
qed

lemma small_sless:
  fixes d :: u64
  assumes "d < 2 ^ 31"
  shows "word_sless 1 (ucast d :: cint) \<longleftrightarrow> 1 < d"
  using sint_cint_small [OF assms] by (simp add: word_sless_alt word_less_def)

lemma small_ult:
  fixes d :: u64 and ndp :: u32
  assumes "d < 2 ^ 31"
  shows "ndp < ucast d \<longleftrightarrow> ucast ndp < d"
proof -
  have u: "uint d < 2 ^ 31" using assms by (simp add: word_less_def)
  have "uint (ucast d :: u32) = uint d"
    using u by (simp add: take_bit_int_eq_self unsigned_ucast_eq)
  moreover have "uint (ucast ndp :: u64) = uint ndp"
    using uint_lt2p [of ndp] by (simp add: unsigned_ucast_eq take_bit_int_eq_self)
  ultimately show ?thesis by (simp add: word_less_def)
qed

lemma behind_not_sless:
  fixes d :: u64
  assumes "2 ^ 48 - 2 ^ 31 \<le> d" "d < 2 ^ 48"
  shows "\<not> word_sless 1 (ucast d :: cint)"
proof -
  have l: "2 ^ 48 - 2 ^ 31 \<le> uint d" using assms(1) by (simp add: word_le_def)
  have u: "uint d < 2 ^ 48" using assms(2) by (simp add: word_less_def)
  have "(uint d - 281474976710656) mod 4294967296 = uint d mod 4294967296"
    by (subst mod_diff_right_eq [symmetric]) simp
  then have "signed_take_bit 31 (uint d) = signed_take_bit 31 (uint d - 2 ^ 48)"
    by (simp add: signed_take_bit_eq_iff_take_bit_eq take_bit_eq_mod)
  also have "\<dots> = uint d - 2 ^ 48"
    using l u by (intro signed_take_bit_int_eq_self) simp_all
  finally have "sint (ucast d :: cint) < 0"
    using u by (simp add: signed_ucast_eq)
  then show ?thesis by (simp add: word_sless_alt)
qed

section \<open>Facts about the ring\<close>

lemma word2_of_nat_mod4: "(word_of_nat (m mod 4) :: 2 word) = word_of_nat m"
  by (simp add: word_of_nat_eq_iff take_bit_eq_mod)

lemma index_add: "tfrc_rx_hist_index h n = loss_start h + of_nat n"
  by (simp add: tfrc_rx_hist_index_def TFRC_NDUPACK_def word2_of_nat_mod4)

lemma loss_prev_entry: "tfrc_rx_hist_loss_prev h = tfrc_rx_hist_entry h 0"
  by (simp add: tfrc_rx_hist_loss_prev_def tfrc_rx_hist_entry_def index_add)

lemma word2_cases: "(x :: 2 word) = 0 \<or> x = 1 \<or> x = 2 \<or> x = 3"
proof -
  have "unat x < 4"
    using unsigned_less [of x, where ?'a = nat] by simp
  then have "unat x = unat (0 :: 2 word) \<or> unat x = unat (1 :: 2 word) \<or>
      unat x = unat (2 :: 2 word) \<or> unat x = unat (3 :: 2 word)"
    by simp arith
  then show ?thesis
    by (simp only: word_unat_eq_iff)
qed

lemma word2_four_add: "(4 :: 2 word) + x = x" "x + (4 :: 2 word) = x"
  by simp_all

section \<open>The duplicate test\<close>

lemma duplicate_loop_iff:
  "duplicate_loop h seq i \<noteq> 0 \<longleftrightarrow>
     (\<exists>j. i \<le> j \<and> j \<le> unat (loss_count h) \<and> ucast (tfrchrx_seqno (tfrc_rx_hist_entry h j)) = seq)"
proof (induction h seq i rule: duplicate_loop.induct)
  case (1 h seq i)
  show ?case
  proof (cases "i \<le> unat (loss_count h)")
    case False
    then show ?thesis by (subst duplicate_loop.simps) auto
  next
    case le: True
    show ?thesis
    proof (cases "ucast (tfrchrx_seqno (tfrc_rx_hist_entry h i)) = seq")
      case True
      with le show ?thesis
        by (subst duplicate_loop.simps) auto
    next
      case False
      have "(\<exists>j. i \<le> j \<and> j \<le> unat (loss_count h) \<and> ucast (tfrchrx_seqno (tfrc_rx_hist_entry h j)) = seq)
        \<longleftrightarrow> (\<exists>j. i + 1 \<le> j \<and> j \<le> unat (loss_count h) \<and> ucast (tfrchrx_seqno (tfrc_rx_hist_entry h j)) = seq)"
        (is "?L \<longleftrightarrow> ?R")
      proof
        assume ?L
        then obtain j where j: "i \<le> j" "j \<le> unat (loss_count h)"
          "ucast (tfrchrx_seqno (tfrc_rx_hist_entry h j)) = seq" by blast
        with False have "j \<noteq> i" by auto
        with j show ?R by (intro exI [of _ j]) simp
      next
        assume ?R
        then obtain j where j: "i + 1 \<le> j" "j \<le> unat (loss_count h)"
          "ucast (tfrchrx_seqno (tfrc_rx_hist_entry h j)) = seq" by blast
        then show ?L by (intro exI [of _ j]) simp
      qed
      with 1 le False show ?thesis
        by (subst duplicate_loop.simps) simp
    qed
  qed
qed

text \<open>
  What \<open>tfrc_rx_hist_duplicate\<close> computes for a 48-bit sequence number: it is the
  anchor's own number, or the number of a pending entry. The unsigned distance is
  \<open><= 0\<close> only when it is 0.
\<close>

lemma duplicate_iff:
  assumes "dccpd_seq skb < 2 ^ 48"
  shows "tfrc_rx_hist_duplicate h skb \<noteq> 0 \<longleftrightarrow>
     dccpd_seq skb = ucast (tfrchrx_seqno (tfrc_rx_hist_loss_prev h)) \<or>
     (\<exists>j. 1 \<le> j \<and> j \<le> unat (loss_count h) \<and>
          ucast (tfrchrx_seqno (tfrc_rx_hist_entry h j)) = dccpd_seq skb)"
  using assms by (simp add: tfrc_rx_hist_duplicate_def Let_def delta_eq_0_seq duplicate_loop_iff)

text \<open>
  C1. The claim has \<open>tfrc_rx_hist_duplicate\<close> return true for every sequence number
  that is not after the anchor's. In the history with anchor 100 and nothing pending,
  the packet 99 is not after the anchor, and the routine returns 0.
\<close>

theorem duplicate_misses_packet_before_anchor:
  "\<not> after48 (dccpd_seq (skb_of 99 0)) (ucast (tfrchrx_seqno (tfrc_rx_hist_loss_prev scenario_A))) \<and>
   before48 (dccpd_seq (skb_of 99 0)) (ucast (tfrchrx_seqno (tfrc_rx_hist_loss_prev scenario_A))) \<and>
   tfrc_rx_hist_duplicate scenario_A (skb_of 99 0) = 0"
  by (simp add: tfrc_rx_hist_duplicate_def scenario_A_def entry_of_def skb_of_def
      dccp_delta_seqno_def tfrc_rx_hist_loss_prev_def duplicate_loop.simps after48_def before48_def)

section \<open>Detection of a new loss\<close>

text \<open>
  C4 (as amended). With \<open>loss_count = 0\<close>, let \<open>d\<close> be the distance mod \<open>2^48\<close> from the
  last received entry to the packet. If \<open>d < 2^31\<close>: when \<open>d > 1\<close> and \<open>ndp < d\<close> the call
  sets \<open>loss_count\<close> to 1 and returns 1, otherwise it returns 0 and the history is
  unchanged. If the packet is at most \<open>2^31\<close> behind the last received entry
  (\<open>d \<ge> 2^48 - 2^31\<close>) the call returns 0 and the history is unchanged: the distance is
  held in a signed 32-bit \<open>int\<close>.
\<close>

theorem new_loss_indicated_within_int_range:
  assumes "loss_count h = 0"
  shows "let d = dccp_delta_seqno (ucast (tfrchrx_seqno (tfrc_rx_hist_last_rcv h))) (dccpd_seq skb) in
         (d < 2 ^ 31 \<longrightarrow>
            tfrc_rx_hist_new_loss_indicated h skb ndp =
              (if 1 < d \<and> ucast ndp < d then (1, h\<lparr>loss_count := 1\<rparr>) else (0, h))) \<and>
         (2 ^ 48 - 2 ^ 31 \<le> d \<longrightarrow> tfrc_rx_hist_new_loss_indicated h skb ndp = (0, h))"
  using assms behind_not_sless [OF _ delta_lt]
  by (simp add: Let_def tfrc_rx_hist_new_loss_indicated_def small_sless small_ult
      tfrc_rx_hist_loss_indicated_def tfrc_rx_hist_loss_pending_def)

lemma scenario_A_last_rcv: "tfrchrx_seqno (tfrc_rx_hist_last_rcv scenario_A) = 100"
  by (simp add: tfrc_rx_hist_last_rcv_def tfrc_rx_hist_last_rcv_index_def index_add
      scenario_A_def entry_of_def)

text \<open>Scenario B: anchor 100, packet 103 with \<open>ndp = 0\<close>; and a packet one behind.\<close>

theorem new_loss_indicated_within_int_range_witness:
  "loss_count scenario_A = 0 \<and>
   dccp_delta_seqno (ucast (tfrchrx_seqno (tfrc_rx_hist_last_rcv scenario_A))) (dccpd_seq (skb_of 103 0)) = 3 \<and>
   tfrc_rx_hist_new_loss_indicated scenario_A (skb_of 103 0) 0 = (1, scenario_A\<lparr>loss_count := 1\<rparr>) \<and>
   2 ^ 48 - 2 ^ 31 \<le> dccp_delta_seqno (ucast (tfrchrx_seqno (tfrc_rx_hist_last_rcv scenario_A))) (dccpd_seq (skb_of 99 0)) \<and>
   tfrc_rx_hist_new_loss_indicated scenario_A (skb_of 99 0) 0 = (0, scenario_A)"
proof -
  have lc: "loss_count scenario_A = 0" by (simp add: scenario_A_def)
  have d103: "dccp_delta_seqno (ucast (tfrchrx_seqno (tfrc_rx_hist_last_rcv scenario_A))) (dccpd_seq (skb_of 103 0)) = 3"
    by (simp add: scenario_A_last_rcv skb_of_def dccp_delta_seqno_def)
  have d99: "dccp_delta_seqno (ucast (tfrchrx_seqno (tfrc_rx_hist_last_rcv scenario_A))) (dccpd_seq (skb_of 99 0)) = 2 ^ 48 - 1"
    by (simp add: scenario_A_last_rcv skb_of_def dccp_delta_seqno_def)
  show ?thesis
    using lc new_loss_indicated_within_int_range [OF lc, of "skb_of 103 0" 0]
      new_loss_indicated_within_int_range [OF lc, of "skb_of 99 0" 0]
    by (simp add: d103 d99 Let_def)
qed

text \<open>The claim as stated fails for the packet one behind the anchor 100: its distance
  mod \<open>2^48\<close> is \<open>2^48 - 1\<close>, which is greater than 1 and than \<open>ndp = 0\<close>, and the call
  returns 0 and leaves \<open>loss_count\<close> at 0.\<close>

theorem new_loss_indicated_counterexample:
  "loss_count scenario_A = 0 \<and>
   1 < dccp_delta_seqno (ucast (tfrchrx_seqno (tfrc_rx_hist_last_rcv scenario_A))) (dccpd_seq (skb_of 99 0)) \<and>
   ucast (0 :: u32) < dccp_delta_seqno (ucast (tfrchrx_seqno (tfrc_rx_hist_last_rcv scenario_A))) (dccpd_seq (skb_of 99 0)) \<and>
   fst (tfrc_rx_hist_new_loss_indicated scenario_A (skb_of 99 0) 0) = 0 \<and>
   loss_count (snd (tfrc_rx_hist_new_loss_indicated scenario_A (skb_of 99 0) 0)) = 0"
  by (simp add: scenario_A_last_rcv skb_of_def dccp_delta_seqno_def scenario_A_def
      tfrc_rx_hist_new_loss_indicated_def tfrc_rx_hist_loss_pending_def word_sless_alt
      tfrc_rx_hist_last_rcv_def tfrc_rx_hist_last_rcv_index_def index_add entry_of_def)

section \<open>Loss handling\<close>

lemma two_after_loss_new_loss:
  "two_after_loss h skb n now = (r, h2) \<Longrightarrow> r \<noteq> 0 \<Longrightarrow> loss_count h2 = 3 \<and> r = 1"
  by (auto simp: two_after_loss_def Let_def rx_hist_store_def split: if_splits)

lemma three_after_loss_no_events: "loss_count h = 3 \<Longrightarrow> snd (three_after_loss h) = []"
  by (simp add: three_after_loss_def tfrc_rx_hist_delta_seqno_def Let_def split_def)

text \<open>
  C3. A call of \<open>tfrc_rx_handle_loss\<close> that enters with \<open>loss_count = 2\<close> and whose
  two-pending transition returns non-zero calls the loss interval database exactly once,
  on the history as the transition left it (\<open>loss_count = 3\<close>, before
  \<open>__three_after_loss\<close> recycles it), returns what the database returns and leaves the
  recycled history. Every other call does not call it and returns 0.
\<close>

theorem handle_loss_calls_sink_once:
  "(loss_count h = 2 \<and> fst (two_after_loss h skb ndp now) \<noteq> 0 \<longrightarrow>
      tfrc_rx_handle_loss f h lh skb ndp now =
        (fst (f lh (snd (two_after_loss h skb ndp now))),
         fst (three_after_loss (snd (two_after_loss h skb ndp now))),
         snd (f lh (snd (two_after_loss h skb ndp now))),
         [LH_INTERVAL_ADD (snd (two_after_loss h skb ndp now))]) \<and>
      loss_count (snd (two_after_loss h skb ndp now)) = 3 \<and>
      interval_add_calls (snd (snd (snd (tfrc_rx_handle_loss f h lh skb ndp now)))) = 1) \<and>
   (\<not> (loss_count h = 2 \<and> fst (two_after_loss h skb ndp now) \<noteq> 0) \<longrightarrow>
      fst (tfrc_rx_handle_loss f h lh skb ndp now) = 0 \<and>
      fst (snd (snd (tfrc_rx_handle_loss f h lh skb ndp now))) = lh \<and>
      interval_add_calls (snd (snd (snd (tfrc_rx_handle_loss f h lh skb ndp now)))) = 0) \<and>
   (loss_count h = 1 \<longrightarrow>
      tfrc_rx_handle_loss f h lh skb ndp now = (0, one_after_loss h skb ndp now, lh, []))"
proof (intro conjI impI)
  assume a: "loss_count h = 2 \<and> fst (two_after_loss h skb ndp now) \<noteq> 0"
  obtain r h2 where t: "two_after_loss h skb ndp now = (r, h2)" by (cases "two_after_loss h skb ndp now")
  with a have r: "r \<noteq> 0" by simp
  from two_after_loss_new_loss [OF t r] have c3: "loss_count h2 = 3" by simp
  from c3 t show "loss_count (snd (two_after_loss h skb ndp now)) = 3" by simp
  from a t r three_after_loss_no_events [OF c3]
  show eq: "tfrc_rx_handle_loss f h lh skb ndp now =
        (fst (f lh (snd (two_after_loss h skb ndp now))),
         fst (three_after_loss (snd (two_after_loss h skb ndp now))),
         snd (f lh (snd (two_after_loss h skb ndp now))),
         [LH_INTERVAL_ADD (snd (two_after_loss h skb ndp now))])"
    by (simp add: tfrc_rx_handle_loss_def split_def Let_def)
  show "interval_add_calls (snd (snd (snd (tfrc_rx_handle_loss f h lh skb ndp now)))) = 1"
    by (simp add: eq interval_add_calls_def)
next
  assume "\<not> (loss_count h = 2 \<and> fst (two_after_loss h skb ndp now) \<noteq> 0)"
  then show "fst (tfrc_rx_handle_loss f h lh skb ndp now) = 0"
    and "fst (snd (snd (tfrc_rx_handle_loss f h lh skb ndp now))) = lh"
    and "interval_add_calls (snd (snd (snd (tfrc_rx_handle_loss f h lh skb ndp now)))) = 0"
    by (auto simp: tfrc_rx_handle_loss_def split_def interval_add_calls_def)
next
  assume "loss_count h = 1"
  then show "tfrc_rx_handle_loss f h lh skb ndp now = (0, one_after_loss h skb ndp now, lh, [])"
    by (simp add: tfrc_rx_handle_loss_def)
qed

lemmas ring_eval = tfrc_rx_hist_entry_def tfrc_rx_hist_loss_prev_def index_add
  dccp_delta_seqno_def Let_def tfrc_rx_hist_swap_def rx_hist_store_def word_sless_alt word_sle_eq
  tfrc_rx_hist_entry_from_skb_def entry_of_def skb_of_def

text \<open>Anchor 100, pending 102 and 103: the packet 104 confirms a loss; the packet 101
  closes the gap. Anchor 100, pending 103: the packet 104 extends the pending set.\<close>

lemma scenario_C_104: "fst (two_after_loss scenario_C (skb_of 104 0) 0 2000) = 1"
  by (simp add: two_after_loss_def scenario_C_def ring_eval)

lemma scenario_C_101: "fst (two_after_loss scenario_C (skb_of 101 0) 0 2000) = 0"
  by (simp add: two_after_loss_def scenario_C_def ring_eval)

theorem handle_loss_calls_sink_once_witness:
  "(loss_count scenario_C = 2 \<and> fst (two_after_loss scenario_C (skb_of 104 0) 0 2000) \<noteq> 0) \<and>
   fst (tfrc_rx_handle_loss lh_count scenario_C 0 (skb_of 104 0) 0 2000) = 1 \<and>
   fst (snd (snd (tfrc_rx_handle_loss lh_count scenario_C 0 (skb_of 104 0) 0 2000))) = 1 \<and>
   interval_add_calls (snd (snd (snd (tfrc_rx_handle_loss lh_count scenario_C 0 (skb_of 104 0) 0 2000)))) = 1 \<and>
   \<not> (loss_count scenario_C = 2 \<and> fst (two_after_loss scenario_C (skb_of 101 0) 0 2000) \<noteq> 0) \<and>
   fst (tfrc_rx_handle_loss lh_count scenario_C 0 (skb_of 101 0) 0 2000) = 0 \<and>
   interval_add_calls (snd (snd (snd (tfrc_rx_handle_loss lh_count scenario_C 0 (skb_of 101 0) 0 2000)))) = 0 \<and>
   loss_count scenario_B = 1 \<and>
   tfrc_rx_handle_loss lh_count scenario_B 0 (skb_of 104 0) 0 2000 =
     (0, one_after_loss scenario_B (skb_of 104 0) 0 2000, 0, [])"
proof -
  have c: "loss_count scenario_C = 2" by (simp add: scenario_C_def)
  have b: "loss_count scenario_B = 1" by (simp add: scenario_B_def)
  show ?thesis
    using handle_loss_calls_sink_once [of scenario_C "skb_of 104 0" 0 2000 lh_count 0]
      handle_loss_calls_sink_once [of scenario_C "skb_of 101 0" 0 2000 lh_count 0]
      handle_loss_calls_sink_once [of scenario_B "skb_of 104 0" 0 2000 lh_count 0]
    by (simp add: c b scenario_C_104 scenario_C_101 lh_count_def interval_add_calls_def)
qed

text \<open>
  C8. A call of \<open>tfrc_rx_handle_loss\<close> that enters with \<open>loss_count\<close> neither 1 nor 2
  (that is 0 or 3) takes the \<open>DCCP_BUG\<close> branch: it reports the invalid \<open>loss_count\<close>,
  runs no transition, leaves history and database unchanged, does not call the
  database, and returns 0.
\<close>

theorem handle_loss_invalid_loss_count:
  assumes "loss_count h \<noteq> 1" and "loss_count h \<noteq> 2"
  shows "tfrc_rx_handle_loss f h lh skb ndp now = (0, h, lh, [BUG_invalid_loss_count (loss_count h)]) \<and>
         interval_add_calls (snd (snd (snd (tfrc_rx_handle_loss f h lh skb ndp now)))) = 0 \<and>
         (loss_count h = 0 \<or> loss_count h = 3)"
  using assms word2_cases [of "loss_count h"]
  by (simp add: tfrc_rx_handle_loss_def interval_add_calls_def)

theorem handle_loss_invalid_loss_count_witness:
  "loss_count scenario_A \<noteq> 1 \<and> loss_count scenario_A \<noteq> 2 \<and>
   tfrc_rx_handle_loss lh_count scenario_A 0 (skb_of 103 0) 0 2000 =
     (0, scenario_A, 0, [BUG_invalid_loss_count 0]) \<and>
   loss_count (scenario_A\<lparr>loss_count := 3\<rparr>) \<noteq> 1 \<and> loss_count (scenario_A\<lparr>loss_count := 3\<rparr>) \<noteq> 2 \<and>
   tfrc_rx_handle_loss lh_count (scenario_A\<lparr>loss_count := 3\<rparr>) 0 (skb_of 103 0) 0 2000 =
     (0, scenario_A\<lparr>loss_count := 3\<rparr>, 0, [BUG_invalid_loss_count 3])"
proof -
  have a: "loss_count scenario_A \<noteq> 1" "loss_count scenario_A \<noteq> 2"
    by (simp_all add: scenario_A_def)
  have b: "loss_count (scenario_A\<lparr>loss_count := 3\<rparr>) \<noteq> 1" "loss_count (scenario_A\<lparr>loss_count := 3\<rparr>) \<noteq> 2"
    by simp_all
  show ?thesis
    using a b handle_loss_invalid_loss_count [OF a, of lh_count 0 "skb_of 103 0" 0 2000]
      handle_loss_invalid_loss_count [OF b, of lh_count 0 "skb_of 103 0" 0 2000]
    by (simp add: scenario_A_def)
qed

section \<open>Scenarios C and D\<close>

lemma word2_add_neq:
  "(x :: 2 word) + 1 \<noteq> x" "(x :: 2 word) + 2 \<noteq> x" "(x :: 2 word) + 3 \<noteq> x"
  "x \<noteq> (x :: 2 word) + 1" "x \<noteq> (x :: 2 word) + 2" "x \<noteq> (x :: 2 word) + 3"
  by simp_all

lemma word2_add_wrap:
  "(x :: 2 word) + 5 = x + 1" "(x :: 2 word) + 6 = x + 2" "(x :: 2 word) + 7 = x + 3"
  "5 + (x :: 2 word) = x + 1" "6 + (x :: 2 word) = x + 2" "7 + (x :: 2 word) = x + 3"
  by simp_all

lemmas transition_eval = tfrc_rx_hist_entry_def tfrc_rx_hist_loss_prev_def index_add
  dccp_delta_seqno_def Let_def tfrc_rx_hist_swap_def rx_hist_store_def word_sless_alt word_sle_eq
  word2_four_add word2_add_neq word2_add_wrap

text \<open>Anchor 100, pending 103, packet 102 without NDP count: the hole between 100 and
  102 remains, so the anchor's slot and the unused fourth slot are exchanged, the
  anchor index moves to the fourth slot and the packet is stored behind it.\<close>

lemma one_after_loss_reorder:
  assumes "loss_count h = 1"
    and "tfrchrx_seqno (tfrc_rx_hist_loss_prev h) = 100"
    and "tfrchrx_seqno (tfrc_rx_hist_entry h 1) = 103"
    and "dccpd_seq skb = 102"
  shows "one_after_loss h skb 0 now =
     h\<lparr>ring := (ring h)(loss_start h := tfrc_rx_hist_entry_from_skb skb 0 now,
                         loss_start h + 3 := ring h (loss_start h)),
       loss_start := loss_start h + 3, loss_count := 2\<rparr>"
  using assms by (simp add: one_after_loss_def transition_eval fun_upd_twist)

text \<open>Anchor 100, pending 102 and 103, packet 101 without NDP count: all three
  distances are 1, the hole is filled and the anchor moves to the entry of 103.\<close>

lemma two_after_loss_filled:
  assumes "loss_count h = 2"
    and "tfrchrx_seqno (tfrc_rx_hist_loss_prev h) = 100"
    and "tfrchrx_seqno (tfrc_rx_hist_entry h 1) = 102"
    and "tfrchrx_seqno (tfrc_rx_hist_entry h 2) = 103"
    and "dccpd_seq skb = 101"
  shows "two_after_loss h skb 0 now = (0, h\<lparr>loss_start := loss_start h + 2, loss_count := 0\<rparr>)"
  using assms by (simp add: two_after_loss_def transition_eval)

text \<open>
  C5. From \<open>loss_count = 1\<close> with anchor 100 and pending entry 103, the packet 102
  (\<open>ndp = 0\<close>) gives \<open>loss_count = 2\<close> with the entries 100, 102, 103 in this logical
  order; then the packet 101 (\<open>ndp = 0\<close>) is at distance 1 from the anchor and 102 at
  distance 1 from it, \<open>loss_count\<close> becomes 0, the anchor is the entry that holds 103,
  and both calls return 0 without calling the loss interval database.
\<close>

theorem handle_loss_scenario_C_then_D:
  assumes "loss_count h = 1"
    and "tfrchrx_seqno (tfrc_rx_hist_loss_prev h) = 100"
    and "tfrchrx_seqno (tfrc_rx_hist_entry h 1) = 103"
    and "dccpd_seq skb102 = 102"
    and "dccpd_seq skb101 = 101"
  shows "let (r1, h1, lh1, ev1) = tfrc_rx_handle_loss f h lh skb102 0 now1;
             (r2, h2, lh2, ev2) = tfrc_rx_handle_loss f h1 lh1 skb101 0 now2
         in r1 = 0 \<and> loss_count h1 = 2 \<and>
            map (\<lambda>i. tfrchrx_seqno (tfrc_rx_hist_entry h1 i)) [0, 1, 2] = [100, 102, 103] \<and>
            dccp_delta_seqno (ucast (tfrchrx_seqno (tfrc_rx_hist_loss_prev h1))) (dccpd_seq skb101) = 1 \<and>
            dccp_delta_seqno (dccpd_seq skb101) (ucast (tfrchrx_seqno (tfrc_rx_hist_entry h1 1))) = 1 \<and>
            r2 = 0 \<and> loss_count h2 = 0 \<and>
            loss_start h2 = tfrc_rx_hist_index h1 2 \<and>
            tfrc_rx_hist_loss_prev h2 = tfrc_rx_hist_entry h 1 \<and>
            tfrchrx_seqno (tfrc_rx_hist_loss_prev h2) = 103 \<and>
            lh1 = lh \<and> lh2 = lh \<and> ev1 = [] \<and> ev2 = []"
proof -
  define h1 where "h1 = one_after_loss h skb102 0 now1"
  have h1: "h1 = h\<lparr>ring := (ring h)(loss_start h := tfrc_rx_hist_entry_from_skb skb102 0 now1,
                         loss_start h + 3 := ring h (loss_start h)),
       loss_start := loss_start h + 3, loss_count := 2\<rparr>"
    unfolding h1_def using assms(1-4) by (rule one_after_loss_reorder)
  have c1: "loss_count h1 = 2" by (simp add: h1)
  have s0: "tfrchrx_seqno (tfrc_rx_hist_loss_prev h1) = 100"
    using assms(2) by (simp add: h1 transition_eval)
  have s1: "tfrchrx_seqno (tfrc_rx_hist_entry h1 1) = 102"
    using assms(4) by (simp add: h1 transition_eval tfrc_rx_hist_entry_from_skb_def)
  have s2: "tfrchrx_seqno (tfrc_rx_hist_entry h1 2) = 103"
    using assms(3) by (simp add: h1 transition_eval)
  have e2: "tfrc_rx_hist_entry h1 2 = tfrc_rx_hist_entry h 1"
    by (simp add: h1 transition_eval)
  have first: "tfrc_rx_handle_loss f h lh skb102 0 now1 = (0, h1, lh, [])"
    using assms(1) by (simp add: tfrc_rx_handle_loss_def h1_def)
  have second: "tfrc_rx_handle_loss f h1 lh skb101 0 now2 =
      (0, h1\<lparr>loss_start := loss_start h1 + 2, loss_count := 0\<rparr>, lh, [])"
    using c1 two_after_loss_filled [OF c1 s0 s1 s2 assms(5), of now2]
    by (simp add: tfrc_rx_handle_loss_def)
  have prev: "tfrc_rx_hist_loss_prev (h1\<lparr>loss_start := loss_start h1 + 2, loss_count := 0\<rparr>)
      = tfrc_rx_hist_entry h1 2"
    by (simp add: tfrc_rx_hist_loss_prev_def tfrc_rx_hist_entry_def index_add)
  show ?thesis
    using s0 s1 s2 assms(3,5)
    by (simp add: first second c1 prev e2 loss_prev_entry [symmetric] index_add dccp_delta_seqno_def)
qed

theorem handle_loss_scenario_C_then_D_witness:
  "loss_count scenario_B = 1 \<and>
   tfrchrx_seqno (tfrc_rx_hist_loss_prev scenario_B) = 100 \<and>
   tfrchrx_seqno (tfrc_rx_hist_entry scenario_B 1) = 103 \<and>
   dccpd_seq (skb_of 102 0) = 102 \<and> dccpd_seq (skb_of 101 0) = 101 \<and>
   (let (r1, h1, lh1, ev1) = tfrc_rx_handle_loss lh_count scenario_B 0 (skb_of 102 0) 0 2000;
        (r2, h2, lh2, ev2) = tfrc_rx_handle_loss lh_count h1 lh1 (skb_of 101 0) 0 3000
    in r1 = 0 \<and> loss_count h1 = 2 \<and>
       map (\<lambda>i. tfrchrx_seqno (tfrc_rx_hist_entry h1 i)) [0, 1, 2] = [100, 102, 103] \<and>
       dccp_delta_seqno (ucast (tfrchrx_seqno (tfrc_rx_hist_loss_prev h1))) (dccpd_seq (skb_of 101 0)) = 1 \<and>
       dccp_delta_seqno (dccpd_seq (skb_of 101 0)) (ucast (tfrchrx_seqno (tfrc_rx_hist_entry h1 1))) = 1 \<and>
       r2 = 0 \<and> loss_count h2 = 0 \<and>
       loss_start h2 = tfrc_rx_hist_index h1 2 \<and>
       tfrc_rx_hist_loss_prev h2 = tfrc_rx_hist_entry scenario_B 1 \<and>
       tfrchrx_seqno (tfrc_rx_hist_loss_prev h2) = 103 \<and>
       lh1 = 0 \<and> lh2 = 0 \<and> ev1 = [] \<and> ev2 = [])"
proof -
  have a: "loss_count scenario_B = 1"
    "tfrchrx_seqno (tfrc_rx_hist_loss_prev scenario_B) = 100"
    "tfrchrx_seqno (tfrc_rx_hist_entry scenario_B 1) = 103"
    "dccpd_seq (skb_of 102 0) = 102" "dccpd_seq (skb_of 101 0) = 101"
    by (simp_all add: scenario_B_def skb_of_def entry_of_def tfrc_rx_hist_loss_prev_def
        tfrc_rx_hist_entry_def index_add)
  show ?thesis
    by (intro conjI a handle_loss_scenario_C_then_D [OF a])
qed

section \<open>RTT sampling\<close>

lemma udiv32_nz: "b \<noteq> 0 \<Longrightarrow> udiv32 a b = Inr (a div b)"
  by (simp add: udiv32_def)

lemma delta_v_cases:
  fixes dv :: u32
  obtains (zero) "dv = 0" | (mid) "1 \<le> dv" "dv \<le> 3" | (four) "dv = 4" | (big) "4 < dv"
proof -
  have "unat dv = unat (0 :: u32) \<or> (unat (1 :: u32) \<le> unat dv \<and> unat dv \<le> unat (3 :: u32)) \<or>
      unat dv = unat (4 :: u32) \<or> unat (4 :: u32) < unat dv"
    by simp arith
  then have "dv = 0 \<or> (1 \<le> dv \<and> dv \<le> 3) \<or> dv = 4 \<or> 4 < dv"
    by (simp only: word_le_nat_alt word_less_nat_alt word_unat_eq_iff)
  then show ?thesis using that by blast
qed

lemma delta_v_mid:
  fixes dv :: u32
  assumes "1 \<le> dv" "dv \<le> 3"
  shows "\<not> dv < 1" "\<not> 4 < dv" "dv \<noteq> 4" "dv \<noteq> 0"
  using assms by (auto simp: word_le_nat_alt word_less_nat_alt)

lemma delta_v_big:
  fixes dv :: u32
  assumes "4 < dv"
  shows "\<not> (1 \<le> dv \<and> dv \<le> 3)" "dv \<noteq> 4" "dv \<noteq> 0"
  using assms by (auto simp: word_le_nat_alt word_less_nat_alt)

text \<open>The history after a call of \<open>tfrc_rx_hist_sample_rtt\<close>: only \<open>loss_start\<close>
  (\<open>rtt_sample_prev\<close>) is written, with a value that the window counter distance and the
  old value decide.\<close>

lemma sample_rtt_state:
  "\<exists>s evs. tfrc_rx_hist_sample_rtt m h skb now =
      Inr (s, h\<lparr>loss_start :=
                 (let delta_v = SUB16 (dccph_ccval skb) (tfrchrx_ccval (tfrc_rx_hist_rtt_last_s h)) in
                  if delta_v = 0 \<and> rtt_sample_prev h \<noteq> 2 then 1
                  else if 1 \<le> delta_v \<and> delta_v \<le> 3 then 2 else 0)\<rparr>, evs)"
proof (cases "SUB16 (dccph_ccval skb) (tfrchrx_ccval (tfrc_rx_hist_rtt_last_s h))" rule: delta_v_cases)
  case zero
  then show ?thesis
    by (simp add: tfrc_rx_hist_sample_rtt_def Let_def sample_rtt_finish_def udiv32_nz)
next
  case mid
  then show ?thesis
    by (simp add: tfrc_rx_hist_sample_rtt_def Let_def delta_v_mid)
next
  case four
  then show ?thesis
    by (simp add: tfrc_rx_hist_sample_rtt_def Let_def sample_rtt_finish_def)
next
  case big
  then show ?thesis
    by (simp add: tfrc_rx_hist_sample_rtt_def Let_def sample_rtt_finish_def udiv32_nz delta_v_big)
qed

lemma ucast_below_2p32:
  fixes e :: u64 and m :: u32
  assumes "e < 2 ^ 32"
  shows "ucast (ucast e :: u32) = e" and "m < ucast e \<longleftrightarrow> ucast m < e"
proof -
  have lt: "uint e < 2 ^ 32" using assms by (simp add: word_less_def)
  then have t: "take_bit 32 (uint e) = uint e" by (simp add: take_bit_int_eq_self)
  then have u: "uint (ucast e :: u32) = uint e" by (simp add: unsigned_ucast_eq)
  have m: "uint (ucast m :: u64) = uint m"
    using uint_lt2p [of m] by (simp add: unsigned_ucast_eq take_bit_int_eq_self)
  have "uint (ucast (ucast e :: u32) :: u64) = uint e"
    using lt by (simp add: unsigned_ucast_eq unsigned_take_bit_eq t take_bit_int_eq_self)
  then show "ucast (ucast e :: u32) = e" by (simp add: word_uint_eq_iff)
  show "m < ucast e \<longleftrightarrow> ucast m < e"
    by (simp only: word_less_def u m)
qed

text \<open>
  C6 (as amended). When the window counter distance is 4 and the time elapsed since
  the reference entry arrived is from 0 to \<open>2^32 - 1\<close> microseconds, the range of the
  \<open>u32\<close> sample, the sample is that elapsed time, or the sanity maximum if the elapsed
  time is greater than the maximum. No call returns more than the maximum. When the
  distance is 0 and no candidate is stored, the call returns 0.
\<close>

theorem sample_rtt_optimal_match_and_clamp:
  "(SUB16 (dccph_ccval skb) (tfrchrx_ccval (tfrc_rx_hist_rtt_last_s h)) = 4 \<and>
    net_timedelta now (tfrchrx_tstamp (tfrc_rx_hist_rtt_last_s h)) < 2 ^ 32 \<longrightarrow>
      (\<exists>s h' evs. tfrc_rx_hist_sample_rtt m h skb now = Inr (s, h', evs) \<and>
         ucast s = (if ucast m < net_timedelta now (tfrchrx_tstamp (tfrc_rx_hist_rtt_last_s h))
                    then ucast m
                    else net_timedelta now (tfrchrx_tstamp (tfrc_rx_hist_rtt_last_s h))))) \<and>
   (\<exists>s h' evs. tfrc_rx_hist_sample_rtt m h skb now = Inr (s, h', evs) \<and> s \<le> m) \<and>
   (SUB16 (dccph_ccval skb) (tfrchrx_ccval (tfrc_rx_hist_rtt_last_s h)) = 0 \<and> rtt_sample_prev h \<noteq> 2 \<longrightarrow>
      tfrc_rx_hist_sample_rtt m h skb now = Inr (0, h\<lparr>loss_start := 1\<rparr>, []))"
proof (intro conjI impI)
  let ?e = "net_timedelta now (tfrchrx_tstamp (tfrc_rx_hist_rtt_last_s h))"
  assume a: "SUB16 (dccph_ccval skb) (tfrchrx_ccval (tfrc_rx_hist_rtt_last_s h)) = 4 \<and> ?e < 2 ^ 32"
  then have fit: "ucast (ucast ?e :: u32) = ?e" "m < ucast ?e \<longleftrightarrow> ucast m < ?e"
    by (simp_all add: ucast_below_2p32)
  have "tfrc_rx_hist_sample_rtt m h skb now =
      Inr (if m < ucast ?e then m else ucast ?e, h\<lparr>loss_start := 0\<rparr>,
           if m < ucast ?e then [WARN_rtt_too_large (ucast ?e)] else [])"
    using a by (simp add: tfrc_rx_hist_sample_rtt_def Let_def sample_rtt_finish_def ktime_to_us_def)
  moreover have "ucast (if m < ucast ?e then m else (ucast ?e :: u32)) =
      (if ucast m < ?e then ucast m else ?e)"
    using fit by simp
  ultimately show "\<exists>s h' evs. tfrc_rx_hist_sample_rtt m h skb now = Inr (s, h', evs) \<and>
         ucast s = (if ucast m < ?e then ucast m else ?e)"
    by blast
next
  show "\<exists>s h' evs. tfrc_rx_hist_sample_rtt m h skb now = Inr (s, h', evs) \<and> s \<le> m"
    by (auto simp add: tfrc_rx_hist_sample_rtt_def Let_def sample_rtt_finish_def udiv32_nz not_less)
next
  assume "SUB16 (dccph_ccval skb) (tfrchrx_ccval (tfrc_rx_hist_rtt_last_s h)) = 0 \<and> rtt_sample_prev h \<noteq> 2"
  then show "tfrc_rx_hist_sample_rtt m h skb now = Inr (0, h\<lparr>loss_start := 1\<rparr>, [])"
    by (simp add: tfrc_rx_hist_sample_rtt_def Let_def)
qed

lemmas sample_eval = tfrc_rx_hist_sample_rtt_def Let_def sample_rtt_finish_def udiv32_def
  tfrc_rx_hist_rtt_last_s_def tfrc_rx_hist_rtt_prev_s_def SUB16_def ktime_to_us_def
  net_timedelta_def ktime_us_delta_def entry_of_def skb_of_def

text \<open>The reference entry of \<open>scenario_A\<close> has window counter 0 and arrived at 1000: a
  packet with counter 4 at 1500 gives the sample 500, one at 5001000 the maximum
  3000000; then a packet with counter 0 gives no sample.\<close>

theorem sample_rtt_optimal_match_and_clamp_witness:
  "(SUB16 (dccph_ccval (skb_of 101 4)) (tfrchrx_ccval (tfrc_rx_hist_rtt_last_s scenario_A)) = 4 \<and>
    net_timedelta 1500 (tfrchrx_tstamp (tfrc_rx_hist_rtt_last_s scenario_A)) < 2 ^ 32) \<and>
   tfrc_rx_hist_sample_rtt 3000000 scenario_A (skb_of 101 4) 1500 = Inr (500, scenario_A, []) \<and>
   net_timedelta 5001000 (tfrchrx_tstamp (tfrc_rx_hist_rtt_last_s scenario_A)) < 2 ^ 32 \<and>
   tfrc_rx_hist_sample_rtt 3000000 scenario_A (skb_of 101 4) 5001000 =
     Inr (3000000, scenario_A, [WARN_rtt_too_large 5000000]) \<and>
   (SUB16 (dccph_ccval (skb_of 102 0)) (tfrchrx_ccval (tfrc_rx_hist_rtt_last_s scenario_A)) = 0 \<and>
    rtt_sample_prev scenario_A \<noteq> 2) \<and>
   tfrc_rx_hist_sample_rtt 3000000 scenario_A (skb_of 102 0) 1600 =
     Inr (0, scenario_A\<lparr>loss_start := 1\<rparr>, [])"
  using sample_rtt_optimal_match_and_clamp [of "skb_of 101 4" scenario_A 1500 3000000]
    sample_rtt_optimal_match_and_clamp [of "skb_of 101 4" scenario_A 5001000 3000000]
    sample_rtt_optimal_match_and_clamp [of "skb_of 102 0" scenario_A 1600 3000000]
  by (simp add: scenario_A_def sample_eval)

text \<open>The claim as stated fails when the elapsed time does not fit the sample: a packet
  with counter 4 that arrives \<open>2^32 + 5\<close> microseconds after the reference entry gives the
  sample 5, which is neither the elapsed time nor the maximum 3000000 that the elapsed
  time exceeds.\<close>

theorem sample_rtt_elapsed_wraps_counterexample:
  "SUB16 (dccph_ccval (skb_of 101 4)) (tfrchrx_ccval (tfrc_rx_hist_rtt_last_s scenario_A)) = 4 \<and>
   net_timedelta 4294968301 (tfrchrx_tstamp (tfrc_rx_hist_rtt_last_s scenario_A)) = 4294967301 \<and>
   (ucast (3000000 :: u32) :: u64) < 4294967301 \<and>
   tfrc_rx_hist_sample_rtt 3000000 scenario_A (skb_of 101 4) 4294968301 = Inr (5, scenario_A, [])"
  by (simp add: scenario_A_def sample_eval)

text \<open>
  C7. \<open>tfrc_rx_hist_sample_rtt\<close> never divides by zero: every call returns a sample.
  When the window counter distance is unsuitable, a candidate is stored and its counter
  distance \<open>raw\<close> to the reference entry is 0, the call reports the inconsistency and
  returns 0.
\<close>

theorem sample_rtt_no_division_by_zero:
  "(\<exists>r. tfrc_rx_hist_sample_rtt m h skb now = Inr r) \<and>
   ((SUB16 (dccph_ccval skb) (tfrchrx_ccval (tfrc_rx_hist_rtt_last_s h)) < 1 \<or>
     SUB16 (dccph_ccval skb) (tfrchrx_ccval (tfrc_rx_hist_rtt_last_s h)) > 4) \<and>
    rtt_sample_prev h = 2 \<and>
    SUB16 (tfrchrx_ccval (tfrc_rx_hist_rtt_prev_s h)) (tfrchrx_ccval (tfrc_rx_hist_rtt_last_s h)) = 0
    \<longrightarrow> tfrc_rx_hist_sample_rtt m h skb now =
          Inr (0, h\<lparr>loss_start := 0\<rparr>,
               [BUG_rtt_prev_last (tfrchrx_ccval (tfrc_rx_hist_rtt_prev_s h))
                                  (tfrchrx_ccval (tfrc_rx_hist_rtt_last_s h))]))"
  by (simp add: tfrc_rx_hist_sample_rtt_def Let_def udiv32_nz sample_rtt_finish_def)

theorem sample_rtt_no_division_by_zero_witness:
  "(SUB16 (dccph_ccval (skb_of 102 5)) (tfrchrx_ccval (tfrc_rx_hist_rtt_last_s scenario_R)) < 1 \<or>
    SUB16 (dccph_ccval (skb_of 102 5)) (tfrchrx_ccval (tfrc_rx_hist_rtt_last_s scenario_R)) > 4) \<and>
   rtt_sample_prev scenario_R = 2 \<and>
   SUB16 (tfrchrx_ccval (tfrc_rx_hist_rtt_prev_s scenario_R))
         (tfrchrx_ccval (tfrc_rx_hist_rtt_last_s scenario_R)) = 0 \<and>
   tfrc_rx_hist_sample_rtt 3000000 scenario_R (skb_of 102 5) 1500 =
     Inr (0, scenario_R\<lparr>loss_start := 0\<rparr>, [BUG_rtt_prev_last 5 5])"
  using sample_rtt_no_division_by_zero [of 3000000 scenario_R "skb_of 102 5" 1500]
  by (simp add: scenario_R_def sample_eval)

text \<open>
  C10. \<open>tfrc_rx_hist_sample_rtt\<close> writes \<open>rtt_sample_prev\<close>, which is the field
  \<open>loss_start\<close>: 1 when the window counter distance is 0 and no candidate is stored, 2
  when the distance is 1 to 3, and 0 in every other case; nothing else of the history
  changes. Its reference entry is the slot \<open>ring[0]\<close>, which is the slot of the anchor
  exactly when \<open>loss_start\<close> is 0.
\<close>

theorem sample_rtt_writes_loss_start:
  "(\<exists>s evs. tfrc_rx_hist_sample_rtt m h skb now =
      Inr (s, h\<lparr>loss_start :=
                 (let delta_v = SUB16 (dccph_ccval skb) (tfrchrx_ccval (tfrc_rx_hist_rtt_last_s h)) in
                  if delta_v = 0 \<and> rtt_sample_prev h \<noteq> 2 then 1
                  else if 1 \<le> delta_v \<and> delta_v \<le> 3 then 2 else 0)\<rparr>, evs)) \<and>
   tfrc_rx_hist_rtt_last_s h = ring h 0 \<and>
   (tfrc_rx_hist_index h 0 = 0 \<longleftrightarrow> loss_start h = 0) \<and>
   tfrc_rx_hist_loss_prev h = ring h (loss_start h)"
  using sample_rtt_state [of m h skb now]
  by (simp add: tfrc_rx_hist_rtt_last_s_def index_add tfrc_rx_hist_loss_prev_def)

text \<open>With one entry pending (anchor 100 in slot 0, then 103 in slot 1), a packet with
  the window counter of the reference entry moves \<open>loss_start\<close> to 1: the anchor of the
  loss detection is now the entry of 103.\<close>

theorem sample_rtt_writes_loss_start_witness:
  "tfrc_rx_hist_sample_rtt 3000000 scenario_B (skb_of 104 0) 1500 =
     Inr (0, scenario_B\<lparr>loss_start := 1\<rparr>, []) \<and>
   tfrchrx_seqno (tfrc_rx_hist_loss_prev scenario_B) = 100 \<and>
   tfrchrx_seqno (tfrc_rx_hist_loss_prev (scenario_B\<lparr>loss_start := 1\<rparr>)) = 103 \<and>
   tfrc_rx_hist_sample_rtt 3000000 scenario_B (skb_of 104 2) 1500 =
     Inr (0, scenario_B\<lparr>loss_start := 2\<rparr>, []) \<and>
   tfrc_rx_hist_sample_rtt 3000000 scenario_R (skb_of 104 10) 1500 =
     Inr (0, scenario_R\<lparr>loss_start := 0\<rparr>, [BUG_rtt_prev_last 5 5])"
  using sample_rtt_writes_loss_start [of 3000000 scenario_B "skb_of 104 0" 1500]
    sample_rtt_writes_loss_start [of 3000000 scenario_B "skb_of 104 2" 1500]
    sample_rtt_writes_loss_start [of 3000000 scenario_R "skb_of 104 10" 1500]
  by (simp add: scenario_B_def scenario_R_def sample_eval tfrc_rx_hist_loss_prev_def index_add)

section \<open>Transmitter history\<close>

lemma find_entry_dropWhile:
  "tfrc_tx_hist_find_entry head sq = dropWhile (\<lambda>e. seqno e \<noteq> sq) head"
  by (induction head) simp_all

lemma purge_Nil: "tfrc_tx_hist_purge es = []"
  by (induction es) simp_all

lemma find_entry_Nil: "tfrc_tx_hist_find_entry head sq = [] \<longleftrightarrow> (\<forall>e \<in> set head. seqno e \<noteq> sq)"
  by (simp add: find_entry_dropWhile dropWhile_eq_Nil_conv)

lemma find_entry_Cons:
  assumes "tfrc_tx_hist_find_entry head sq = packet # older"
  shows "head = takeWhile (\<lambda>e. seqno e \<noteq> sq) head @ packet # older"
    and "seqno packet = sq"
    and "take (length head - length older) head = takeWhile (\<lambda>e. seqno e \<noteq> sq) head @ [packet]"
proof -
  let ?newer = "takeWhile (\<lambda>e. seqno e \<noteq> sq) head"
  from assms have d: "dropWhile (\<lambda>e. seqno e \<noteq> sq) head = packet # older"
    by (simp add: find_entry_dropWhile)
  then show split: "head = ?newer @ packet # older"
    by (metis takeWhile_dropWhile_id)
  from d show "seqno packet = sq"
    using hd_dropWhile [of "\<lambda>e. seqno e \<noteq> sq" head] by auto
  have "length head = length ?newer + Suc (length older)"
    by (subst split) simp
  then have "take (length head - length older) head = take (Suc (length ?newer)) (?newer @ packet # older)"
    using split by simp
  then show "take (length head - length older) head = ?newer @ [packet]"
    by simp
qed

text \<open>
  C9 (as amended). If an entry of the list has the sequence number, \<open>tfrc_tx_hist_rtt\<close>
  returns \<open>now\<close> minus the send time of the first such entry (in the 32 bits of the
  result) and removes from the list every entry older than it: the matched entry and the
  newer ones stay, in their order. If no entry matches it returns 0 and the list is
  unchanged.
\<close>

theorem tx_hist_rtt_purges_older:
  "((\<exists>e \<in> set head. seqno e = sq) \<longrightarrow>
      (\<exists>newer packet older.
          head = newer @ packet # older \<and> (\<forall>e \<in> set newer. seqno e \<noteq> sq) \<and> seqno packet = sq \<and>
          tfrc_tx_hist_rtt head sq now = (ucast (now - stamp packet), newer @ [packet]))) \<and>
   (\<not> (\<exists>e \<in> set head. seqno e = sq) \<longrightarrow> tfrc_tx_hist_rtt head sq now = (0, head))"
proof (intro conjI impI)
  assume "\<exists>e \<in> set head. seqno e = sq"
  then have "tfrc_tx_hist_find_entry head sq \<noteq> []"
    by (simp add: find_entry_Nil)
  then obtain packet older where f: "tfrc_tx_hist_find_entry head sq = packet # older"
    by (cases "tfrc_tx_hist_find_entry head sq") auto
  let ?newer = "takeWhile (\<lambda>e. seqno e \<noteq> sq) head"
  have "head = ?newer @ packet # older" and "seqno packet = sq"
    using find_entry_Cons [OF f] by simp_all
  moreover have "\<forall>e \<in> set ?newer. seqno e \<noteq> sq"
    by (auto dest: set_takeWhileD)
  moreover have "tfrc_tx_hist_rtt head sq now = (ucast (now - stamp packet), ?newer @ [packet])"
    using find_entry_Cons(3) [OF f]
    by (simp add: tfrc_tx_hist_rtt_def f purge_Nil ktime_us_delta_def)
  ultimately show "\<exists>newer packet older.
          head = newer @ packet # older \<and> (\<forall>e \<in> set newer. seqno e \<noteq> sq) \<and> seqno packet = sq \<and>
          tfrc_tx_hist_rtt head sq now = (ucast (now - stamp packet), newer @ [packet])"
    by blast
next
  assume "\<not> (\<exists>e \<in> set head. seqno e = sq)"
  then have "tfrc_tx_hist_find_entry head sq = []"
    by (simp add: find_entry_Nil)
  then show "tfrc_tx_hist_rtt head sq now = (0, head)"
    by (simp add: tfrc_tx_hist_rtt_def)
qed

text \<open>In the list 5, 4, 3 the lookup of 4 at time 100 gives 60 and leaves 5, 4; the
  lookup of 7 gives 0 and leaves the list as it is.\<close>

theorem tx_hist_rtt_purges_older_witness:
  "(\<exists>e \<in> set tx_chain. seqno e = 4) \<and>
   tfrc_tx_hist_rtt tx_chain 4 100 = (60, [\<lparr>seqno = 5, stamp = 50\<rparr>, \<lparr>seqno = 4, stamp = 40\<rparr>]) \<and>
   \<not> (\<exists>e \<in> set tx_chain. seqno e = 7) \<and>
   tfrc_tx_hist_rtt tx_chain 7 100 = (0, tx_chain)"
  using tx_hist_rtt_purges_older [of tx_chain 4 100] tx_hist_rtt_purges_older [of tx_chain 7 100]
  by (simp add: tx_chain_def tfrc_tx_hist_rtt_def ktime_us_delta_def)

text \<open>The claim as stated has the matched entry removed as well. In the list 5, 4, 3
  the entry matched by 4 is still in the list after the call.\<close>

theorem tx_hist_rtt_keeps_matched_entry:
  "tfrc_tx_hist_find_entry tx_chain 4 = [\<lparr>seqno = 4, stamp = 40\<rparr>, \<lparr>seqno = 3, stamp = 30\<rparr>] \<and>
   snd (tfrc_tx_hist_rtt tx_chain 4 100) = [\<lparr>seqno = 5, stamp = 50\<rparr>, \<lparr>seqno = 4, stamp = 40\<rparr>] \<and>
   \<lparr>seqno = 4, stamp = 40\<rparr> \<in> set (snd (tfrc_tx_hist_rtt tx_chain 4 100))"
  by (simp add: tx_chain_def tfrc_tx_hist_rtt_def)

section \<open>Distances between tracked entries\<close>

lemma delta_rebase:
  "take_bit 48 (uint y - uint x) =
   take_bit 48 (uint (dccp_delta_seqno a y) - uint (dccp_delta_seqno a x))"
proof -
  have "take_bit 48 (take_bit 48 (uint y - uint a) - take_bit 48 (uint x - uint a)) =
      take_bit 48 ((uint y - uint a) - (uint x - uint a))"
    by (rule take_bit_diff)
  then show ?thesis by (simp add: uint_delta)
qed

lemma uint_delta_ge0: "0 \<le> uint (dccp_delta_seqno a x)"
  by simp

lemma uint_delta_lt: "uint (dccp_delta_seqno a x) < 2 ^ 48"
  using delta_lt [of a x] by (simp add: word_less_def)

lemma uint_delta_rebase:
  assumes "uint (dccp_delta_seqno a x) \<le> uint (dccp_delta_seqno a y)"
  shows "uint (dccp_delta_seqno x y) = uint (dccp_delta_seqno a y) - uint (dccp_delta_seqno a x)"
proof -
  let ?d = "uint (dccp_delta_seqno a y) - uint (dccp_delta_seqno a x)"
  have "0 \<le> ?d" using assms by simp
  moreover have "?d < 2 ^ 48"
    using uint_delta_lt [of a y] uint_delta_ge0 [of a x] by linarith
  ultimately have "take_bit 48 ?d = ?d" by (simp add: take_bit_int_eq_self)
  then show ?thesis by (simp add: uint_delta [of x y] delta_rebase [of y x a])
qed

lemma sint_delta_rebase:
  assumes "uint (dccp_delta_seqno a x) < 2 ^ 31" and "uint (dccp_delta_seqno a y) < 2 ^ 31"
  shows "sint (ucast (dccp_delta_seqno x y) :: cint) =
         uint (dccp_delta_seqno a y) - uint (dccp_delta_seqno a x)"
proof -
  let ?d = "uint (dccp_delta_seqno a y) - uint (dccp_delta_seqno a x)"
  have lo: "- (2 ^ 31) \<le> ?d"
    using assms(1) uint_delta_ge0 [of a y] by linarith
  have hi: "?d < 2 ^ 31"
    using assms(2) uint_delta_ge0 [of a x] by linarith
  have "signed_take_bit 31 (uint y - uint x) = signed_take_bit 31 (take_bit 48 (uint y - uint x))"
    by (simp add: signed_take_bit_take_bit)
  also have "\<dots> = signed_take_bit 31 (take_bit 48 ?d)"
    by (simp only: delta_rebase [of y x a])
  also have "\<dots> = signed_take_bit 31 ?d"
    by (simp add: signed_take_bit_take_bit)
  also have "\<dots> = ?d"
    using lo hi by (rule signed_take_bit_int_eq_self)
  finally show ?thesis by (simp add: sint_delta)
qed

lemma delta_ucast48_right:
  "dccp_delta_seqno a (ucast (ucast p :: 48 word)) = dccp_delta_seqno a p"
proof -
  have "uint (ucast (ucast p :: 48 word) :: u64) = take_bit 48 (uint p)"
    by (simp add: unsigned_ucast_eq unsigned_take_bit_eq take_bit_take_bit)
  then have "uint (dccp_delta_seqno a (ucast (ucast p :: 48 word))) = take_bit 48 (take_bit 48 (uint p) - uint a)"
    by (simp add: uint_delta)
  also have "\<dots> = take_bit 48 (uint p - uint a)"
    by (metis take_bit_diff take_bit_take_bit min.idem)
  finally show ?thesis by (simp add: word_uint_eq_iff uint_delta)
qed

lemma delta_ucast48_left:
  "dccp_delta_seqno (ucast (ucast p :: 48 word)) b = dccp_delta_seqno p b"
proof -
  have "uint (ucast (ucast p :: 48 word) :: u64) = take_bit 48 (uint p)"
    by (simp add: unsigned_ucast_eq unsigned_take_bit_eq take_bit_take_bit)
  then have "uint (dccp_delta_seqno (ucast (ucast p :: 48 word)) b) = take_bit 48 (uint b - take_bit 48 (uint p))"
    by (simp add: uint_delta)
  also have "\<dots> = take_bit 48 (uint b - uint p)"
    by (metis take_bit_diff take_bit_take_bit min.idem)
  finally show ?thesis by (simp add: word_uint_eq_iff uint_delta)
qed

lemma delta_self: "dccp_delta_seqno a a = 0"
  by (simp add: dccp_delta_seqno_def)

lemma take_bit_48_ge: "2 ^ 47 \<le> take_bit 48 (k :: int) \<longleftrightarrow> bit k 47"
proof -
  have "take_bit (Suc 47) k = 2 ^ 47 * of_bool (bit k 47) + take_bit 47 k"
    by (rule take_bit_Suc_from_most)
  moreover have "0 \<le> take_bit 47 k"
    by simp
  moreover have "take_bit 47 k < 2 ^ 47"
    by (rule take_bit_int_less_exp)
  ultimately show ?thesis by (cases "bit k 47") simp_all
qed

lemma after48_delta: "after48 a s \<longleftrightarrow> 2 ^ 47 \<le> uint (dccp_delta_seqno a s)"
proof -
  have "push_bit 16 s - push_bit 16 a = push_bit 16 (s - a)"
    by (simp add: push_bit_eq_mult algebra_simps)
  then have "after48 a s \<longleftrightarrow> bit (push_bit 16 (s - a)) (LENGTH(64) - Suc 0)"
    by (simp only: after48_def bit_last_iff)
  also have "\<dots> \<longleftrightarrow> bit (s - a) 47"
    by (simp add: bit_push_bit_iff)
  also have "\<dots> \<longleftrightarrow> bit (uint (s - a)) 47"
    by (simp add: bit_uint_iff)
  also have "\<dots> \<longleftrightarrow> 2 ^ 47 \<le> take_bit 48 (uint (s - a))"
    by (simp only: take_bit_48_ge)
  also have "\<dots> \<longleftrightarrow> 2 ^ 47 \<le> uint (dccp_delta_seqno a s)"
    by (simp add: delta_take_bit unsigned_take_bit_eq)
  finally show ?thesis .
qed

lemma seq_offset_0: "seq_offset h 0 = 0"
  by (simp add: seq_offset_def loss_prev_entry delta_self)

lemma seq_offset_ge0: "0 \<le> seq_offset h i"
  by (simp add: seq_offset_def)

lemma tracked_ordered_0: "loss_count h = 0 \<Longrightarrow> tracked_ordered h"
  by (simp add: tracked_ordered_def seq_offset_0)

lemma tracked_ordered_1:
  "loss_count h = 1 \<Longrightarrow>
   tracked_ordered h \<longleftrightarrow> 0 < seq_offset h 1 \<and> seq_offset h 1 < 2 ^ 31"
  by (simp add: tracked_ordered_def seq_offset_0)

lemma nat_interval_2: "{0..<(2::nat)} = {0, 1}"
  by auto

lemma nat_interval_3: "{0..<(3::nat)} = {0, 1, 2}"
  by auto

lemma tracked_ordered_2:
  assumes "loss_count h = 2"
  shows "tracked_ordered h \<longleftrightarrow>
     0 < seq_offset h 1 \<and> seq_offset h 1 < seq_offset h 2 \<and> seq_offset h 2 < 2 ^ 31"
proof -
  have u: "unat (loss_count h) = 2" using assms by simp
  have s: "Suc (Suc 0) = 2" by simp
  show ?thesis
    unfolding tracked_ordered_def u nat_interval_2
    by (simp add: seq_offset_0 s)
qed

lemma tracked_ordered_3:
  assumes "loss_count h = 3"
  shows "tracked_ordered h \<longleftrightarrow>
     0 < seq_offset h 1 \<and> seq_offset h 1 < seq_offset h 2 \<and> seq_offset h 2 < seq_offset h 3 \<and>
     seq_offset h 3 < 2 ^ 31"
proof -
  have u: "unat (loss_count h) = 3" using assms by simp
  have s: "Suc (Suc 0) = 2" "Suc 2 = 3" by simp_all
  show ?thesis
    unfolding tracked_ordered_def u nat_interval_3
    by (simp add: seq_offset_0 s)
qed

section \<open>The transitions keep the tracked entries in order\<close>

lemmas shape_eval = tfrc_rx_hist_entry_def tfrc_rx_hist_loss_prev_def index_add
  Let_def tfrc_rx_hist_swap_def rx_hist_store_def word_sless_alt
  word2_four_add word2_add_neq word2_add_wrap

lemma one_after_loss_shape:
  fixes h skb n2 now
  defines "ls \<equiv> loss_start h"
    and "e \<equiv> tfrc_rx_hist_entry_from_skb skb n2 now"
    and "d12 \<equiv> sint (ucast (dccp_delta_seqno (ucast (tfrchrx_seqno (ring h (loss_start h + 1)))) (dccpd_seq skb)) :: cint)"
  shows "(0 < d12 \<and> one_after_loss h skb n2 now = h\<lparr>ring := (ring h)(ls + 2 := e), loss_count := 2\<rparr>) \<or>
         (d12 \<le> 0 \<and>
            (one_after_loss h skb n2 now = h\<lparr>loss_count := 0, loss_start := ls + 1\<rparr> \<or>
             one_after_loss h skb n2 now = h\<lparr>ring := (ring h)(ls := e)\<rparr> \<or>
             one_after_loss h skb n2 now =
               h\<lparr>ring := (ring h)(ls := e, ls + 3 := ring h ls), loss_start := ls + 3, loss_count := 2\<rparr>))"
  unfolding ls_def e_def d12_def
  by (simp add: one_after_loss_def shape_eval fun_upd_twist not_less)

lemmas offset_eval = seq_offset_def packet_offset_def tfrc_rx_hist_entry_def tfrc_rx_hist_loss_prev_def
  index_add tfrc_rx_hist_entry_from_skb_def delta_ucast48_right delta_ucast48_left
  word2_four_add word2_add_neq word2_add_wrap

lemma packet_is_new_1:
  assumes "loss_count h = 1" and "packet_is_new h skb"
  shows "0 < packet_offset h skb" "packet_offset h skb < 2 ^ 31"
    "packet_offset h skb \<noteq> seq_offset h 1"
  using assms by (simp_all add: packet_is_new_def)

lemma packet_is_new_2:
  assumes "loss_count h = 2" and "packet_is_new h skb"
  shows "0 < packet_offset h skb" "packet_offset h skb < 2 ^ 31"
    "packet_offset h skb \<noteq> seq_offset h 1" "packet_offset h skb \<noteq> seq_offset h 2"
  using assms by (simp_all add: packet_is_new_def)

lemma one_after_loss_ordered:
  assumes lc: "loss_count h = 1" and ord: "tracked_ordered h" and new: "packet_is_new h skb"
  shows "tracked_ordered (one_after_loss h skb n2 now)"
proof -
  define A where "A = (ucast (tfrchrx_seqno (ring h (loss_start h))) :: u64)"
  define S1 where "S1 = (ucast (tfrchrx_seqno (ring h (loss_start h + 1))) :: u64)"
  define P where "P = dccpd_seq skb"
  define o1 where "o1 = uint (dccp_delta_seqno A S1)"
  define q where "q = uint (dccp_delta_seqno A P)"
  have o1_eq: "seq_offset h (Suc 0) = o1" by (simp add: offset_eval o1_def A_def S1_def)
  have q_eq: "packet_offset h skb = q" by (simp add: offset_eval q_def A_def P_def)
  have o1: "0 < o1" "o1 < 2 ^ 31"
    using ord tracked_ordered_1 [OF lc] by (simp_all add: o1_eq)
  have q: "0 < q" "q < 2 ^ 31" "q \<noteq> o1"
    using packet_is_new_1 [OF lc new] by (simp_all add: o1_eq q_eq)
  have d12: "sint (ucast (dccp_delta_seqno S1 P) :: cint) = q - o1"
    unfolding q_def o1_def using o1(2) q(2)
    by (intro sint_delta_rebase) (simp_all add: o1_def q_def)
  have behind: "q < o1 \<Longrightarrow> uint (dccp_delta_seqno P S1) = o1 - q"
    unfolding q_def o1_def by (intro uint_delta_rebase) simp
  note shape = one_after_loss_shape [of h skb n2 now, folded S1_def P_def, unfolded d12]
  from shape consider
    (extend) "0 < q - o1"
      "one_after_loss h skb n2 now =
         h\<lparr>ring := (ring h)(loss_start h + 2 := tfrc_rx_hist_entry_from_skb skb n2 now), loss_count := 2\<rparr>"
  | (filled) "one_after_loss h skb n2 now = h\<lparr>loss_count := 0, loss_start := loss_start h + 1\<rparr>"
  | (advance) "q - o1 \<le> 0"
      "one_after_loss h skb n2 now =
         h\<lparr>ring := (ring h)(loss_start h := tfrc_rx_hist_entry_from_skb skb n2 now)\<rparr>"
  | (reorder) "q - o1 \<le> 0"
      "one_after_loss h skb n2 now =
         h\<lparr>ring := (ring h)(loss_start h := tfrc_rx_hist_entry_from_skb skb n2 now,
                             loss_start h + 3 := ring h (loss_start h)),
           loss_start := loss_start h + 3, loss_count := 2\<rparr>"
    by blast
  then show ?thesis
  proof cases
    case extend
    have "loss_count (one_after_loss h skb n2 now) = 2" by (simp add: extend)
    from tracked_ordered_2 [OF this] show ?thesis
      using o1 q extend(1)
      by (simp add: extend(2) offset_eval A_def [symmetric] S1_def [symmetric] P_def [symmetric]
          o1_def [symmetric] q_def [symmetric])
  next
    case filled
    then show ?thesis by (simp add: tracked_ordered_0)
  next
    case advance
    have "loss_count (one_after_loss h skb n2 now) = 1" by (simp add: advance lc)
    from tracked_ordered_1 [OF this] show ?thesis
      using o1 q advance(1) behind
      by (simp add: advance(2) offset_eval S1_def [symmetric] P_def [symmetric])
  next
    case reorder
    have "loss_count (one_after_loss h skb n2 now) = 2" by (simp add: reorder)
    from tracked_ordered_2 [OF this] show ?thesis
      using o1 q reorder(1)
      by (simp add: reorder(2) offset_eval A_def [symmetric] S1_def [symmetric] P_def [symmetric]
          o1_def [symmetric] q_def [symmetric])
  qed
qed

lemma two_after_loss_shape:
  fixes h skb n3 now
  defines "ls \<equiv> loss_start h"
    and "e \<equiv> tfrc_rx_hist_entry_from_skb skb n3 now"
    and "d23 \<equiv> sint (ucast (dccp_delta_seqno (ucast (tfrchrx_seqno (ring h (loss_start h + 2)))) (dccpd_seq skb)) :: cint)"
    and "d13 \<equiv> sint (ucast (dccp_delta_seqno (ucast (tfrchrx_seqno (ring h (loss_start h + 1)))) (dccpd_seq skb)) :: cint)"
  shows "(0 < d23 \<and> snd (two_after_loss h skb n3 now) = h\<lparr>ring := (ring h)(ls + 3 := e), loss_count := 3\<rparr>) \<or>
         (d23 \<le> 0 \<and> 0 < d13 \<and>
            snd (two_after_loss h skb n3 now) =
              h\<lparr>ring := (ring h)(ls + 3 := ring h (ls + 2), ls + 2 := e), loss_count := 3\<rparr>) \<or>
         (d23 \<le> 0 \<and> d13 \<le> 0 \<and>
            (snd (two_after_loss h skb n3 now) = h\<lparr>loss_start := ls + 2, loss_count := 0\<rparr> \<or>
             snd (two_after_loss h skb n3 now) = h\<lparr>loss_start := ls + 1, loss_count := 1\<rparr> \<or>
             snd (two_after_loss h skb n3 now) = h\<lparr>ring := (ring h)(ls := e)\<rparr> \<or>
             snd (two_after_loss h skb n3 now) =
               h\<lparr>ring := (ring h)(ls := e, ls + 3 := ring h ls), loss_start := ls + 3, loss_count := 3\<rparr>))"
  unfolding ls_def e_def d23_def d13_def
  by (simp add: two_after_loss_def shape_eval fun_upd_twist not_less)

lemma three_after_loss_shape:
  "fst (three_after_loss h) = h\<lparr>loss_start := loss_start h + 3, loss_count := 0\<rparr> \<or>
   fst (three_after_loss h) = h\<lparr>loss_start := loss_start h + 2, loss_count := 1\<rparr> \<or>
   fst (three_after_loss h) = h\<lparr>loss_start := loss_start h + 1, loss_count := 2\<rparr>"
  by (simp add: three_after_loss_def split_def shape_eval)

lemma two_after_loss_ordered:
  assumes lc: "loss_count h = 2" and ord: "tracked_ordered h" and new: "packet_is_new h skb"
  shows "tracked_ordered (snd (two_after_loss h skb n3 now))"
proof -
  define A where "A = (ucast (tfrchrx_seqno (ring h (loss_start h))) :: u64)"
  define S1 where "S1 = (ucast (tfrchrx_seqno (ring h (loss_start h + 1))) :: u64)"
  define S2 where "S2 = (ucast (tfrchrx_seqno (ring h (loss_start h + 2))) :: u64)"
  define P where "P = dccpd_seq skb"
  define o1 where "o1 = uint (dccp_delta_seqno A S1)"
  define o2 where "o2 = uint (dccp_delta_seqno A S2)"
  define q where "q = uint (dccp_delta_seqno A P)"
  define h' where "h' = snd (two_after_loss h skb n3 now)"
  have o1_eq: "seq_offset h (Suc 0) = o1" by (simp add: offset_eval o1_def A_def S1_def)
  have o2_eq: "seq_offset h 2 = o2" by (simp add: offset_eval o2_def A_def S2_def)
  have q_eq: "packet_offset h skb = q" by (simp add: offset_eval q_def A_def P_def)
  have o: "0 < o1" "o1 < o2" "o2 < 2 ^ 31"
    using ord tracked_ordered_2 [OF lc] by (simp_all add: o1_eq o2_eq)
  have q: "0 < q" "q < 2 ^ 31" "q \<noteq> o1" "q \<noteq> o2"
    using packet_is_new_2 [OF lc new] by (simp_all add: o1_eq o2_eq q_eq)
  have o1': "o1 < 2 ^ 31" using o by linarith
  have d23: "sint (ucast (dccp_delta_seqno S2 P) :: cint) = q - o2"
    unfolding q_def o2_def using o(3) q(2)
    by (intro sint_delta_rebase) (simp_all add: o2_def q_def)
  have d13: "sint (ucast (dccp_delta_seqno S1 P) :: cint) = q - o1"
    unfolding q_def o1_def using o1' q(2)
    by (intro sint_delta_rebase) (simp_all add: o1_def q_def)
  have behind1: "q < o1 \<Longrightarrow> uint (dccp_delta_seqno P S1) = o1 - q"
    unfolding q_def o1_def by (intro uint_delta_rebase) simp
  have behind2: "q < o2 \<Longrightarrow> uint (dccp_delta_seqno P S2) = o2 - q"
    unfolding q_def o2_def by (intro uint_delta_rebase) simp
  have between: "uint (dccp_delta_seqno S1 S2) = o2 - o1"
    unfolding o1_def o2_def using o(2) by (intro uint_delta_rebase) (simp add: o1_def o2_def)
  note shape = two_after_loss_shape [of h skb n3 now, folded S1_def S2_def P_def h'_def,
      unfolded d23 d13]
  from shape consider
    (extend) "0 < q - o2"
      "h' = h\<lparr>ring := (ring h)(loss_start h + 3 := tfrc_rx_hist_entry_from_skb skb n3 now), loss_count := 3\<rparr>"
  | (insert) "q - o2 \<le> 0" "0 < q - o1"
      "h' = h\<lparr>ring := (ring h)(loss_start h + 3 := ring h (loss_start h + 2),
                                 loss_start h + 2 := tfrc_rx_hist_entry_from_skb skb n3 now),
              loss_count := 3\<rparr>"
  | (filled) "h' = h\<lparr>loss_start := loss_start h + 2, loss_count := 0\<rparr>"
  | (partly) "h' = h\<lparr>loss_start := loss_start h + 1, loss_count := 1\<rparr>"
  | (advance) "q - o1 \<le> 0"
      "h' = h\<lparr>ring := (ring h)(loss_start h := tfrc_rx_hist_entry_from_skb skb n3 now)\<rparr>"
  | (reorder) "q - o1 \<le> 0"
      "h' = h\<lparr>ring := (ring h)(loss_start h := tfrc_rx_hist_entry_from_skb skb n3 now,
                                 loss_start h + 3 := ring h (loss_start h)),
              loss_start := loss_start h + 3, loss_count := 3\<rparr>"
    by blast
  then have "tracked_ordered h'"
  proof cases
    case extend
    have "loss_count h' = 3" by (simp add: extend)
    from tracked_ordered_3 [OF this] show ?thesis
      using o q extend(1)
      by (simp add: extend(2) offset_eval A_def [symmetric] S1_def [symmetric] S2_def [symmetric]
          P_def [symmetric] o1_def [symmetric] o2_def [symmetric] q_def [symmetric])
  next
    case insert
    have "loss_count h' = 3" by (simp add: insert)
    from tracked_ordered_3 [OF this] show ?thesis
      using o q insert(1,2)
      by (simp add: insert(3) offset_eval A_def [symmetric] S1_def [symmetric] S2_def [symmetric]
          P_def [symmetric] o1_def [symmetric] o2_def [symmetric] q_def [symmetric])
  next
    case filled
    then show ?thesis by (simp add: tracked_ordered_0)
  next
    case partly
    have "loss_count h' = 1" by (simp add: partly)
    moreover have "(ucast (tfrchrx_seqno (ring h (2 + loss_start h))) :: u64) = S2"
      by (simp add: S2_def add.commute)
    ultimately show ?thesis
      using o between
      by (simp add: tracked_ordered_1 partly offset_eval S1_def [symmetric])
  next
    case advance
    have "loss_count h' = 2" by (simp add: advance lc)
    from tracked_ordered_2 [OF this] show ?thesis
      using o q advance(1) behind1 behind2
      by (simp add: advance(2) offset_eval S1_def [symmetric] S2_def [symmetric] P_def [symmetric])
  next
    case reorder
    have "loss_count h' = 3" by (simp add: reorder)
    from tracked_ordered_3 [OF this] show ?thesis
      using o q reorder(1)
      by (simp add: reorder(2) offset_eval A_def [symmetric] S1_def [symmetric] S2_def [symmetric]
          P_def [symmetric] o1_def [symmetric] o2_def [symmetric] q_def [symmetric])
  qed
  then show ?thesis by (simp add: h'_def)
qed

lemma three_after_loss_ordered:
  assumes lc: "loss_count h = 3" and ord: "tracked_ordered h"
  shows "tracked_ordered (fst (three_after_loss h))"
proof -
  define S1 where "S1 = (ucast (tfrchrx_seqno (ring h (loss_start h + 1))) :: u64)"
  define S2 where "S2 = (ucast (tfrchrx_seqno (ring h (loss_start h + 2))) :: u64)"
  define S3 where "S3 = (ucast (tfrchrx_seqno (ring h (loss_start h + 3))) :: u64)"
  define A where "A = (ucast (tfrchrx_seqno (ring h (loss_start h))) :: u64)"
  define o1 where "o1 = uint (dccp_delta_seqno A S1)"
  define o2 where "o2 = uint (dccp_delta_seqno A S2)"
  define o3 where "o3 = uint (dccp_delta_seqno A S3)"
  define h' where "h' = fst (three_after_loss h)"
  have o1_eq: "seq_offset h (Suc 0) = o1" by (simp add: offset_eval o1_def A_def S1_def)
  have o2_eq: "seq_offset h 2 = o2" by (simp add: offset_eval o2_def A_def S2_def)
  have o3_eq: "seq_offset h 3 = o3" by (simp add: offset_eval o3_def A_def S3_def)
  have o: "0 < o1" "o1 < o2" "o2 < o3" "o3 < 2 ^ 31"
    using ord tracked_ordered_3 [OF lc] by (simp_all add: o1_eq o2_eq o3_eq)
  have d12: "uint (dccp_delta_seqno S1 S2) = o2 - o1"
    unfolding o1_def o2_def using o(2) by (intro uint_delta_rebase) (simp add: o1_def o2_def)
  have d13: "uint (dccp_delta_seqno S1 S3) = o3 - o1"
    unfolding o1_def o3_def using o(2,3) by (intro uint_delta_rebase) (simp add: o1_def o3_def)
  have d23: "uint (dccp_delta_seqno S2 S3) = o3 - o2"
    unfolding o2_def o3_def using o(3) by (intro uint_delta_rebase) (simp add: o2_def o3_def)
  from three_after_loss_shape [of h, folded h'_def] consider
    (filled) "h' = h\<lparr>loss_start := loss_start h + 3, loss_count := 0\<rparr>"
  | (last) "h' = h\<lparr>loss_start := loss_start h + 2, loss_count := 1\<rparr>"
  | (first) "h' = h\<lparr>loss_start := loss_start h + 1, loss_count := 2\<rparr>"
    by blast
  then have "tracked_ordered h'"
  proof cases
    case filled
    then show ?thesis by (simp add: tracked_ordered_0)
  next
    case last
    have "loss_count h' = 1" by (simp add: last)
    moreover have "(ucast (tfrchrx_seqno (ring h (3 + loss_start h))) :: u64) = S3"
      by (simp add: S3_def add.commute)
    ultimately show ?thesis
      using o d23
      by (simp add: tracked_ordered_1 last offset_eval S2_def [symmetric])
  next
    case first
    have "loss_count h' = 2" by (simp add: first)
    moreover have "(ucast (tfrchrx_seqno (ring h (2 + loss_start h))) :: u64) = S2"
      by (simp add: S2_def add.commute)
    moreover have "(ucast (tfrchrx_seqno (ring h (3 + loss_start h))) :: u64) = S3"
      by (simp add: S3_def add.commute)
    ultimately show ?thesis
      using o d12 d13
      by (simp add: tracked_ordered_2 first offset_eval S1_def [symmetric])
  qed
  then show ?thesis by (simp add: h'_def)
qed

section \<open>The ordering invariant\<close>

lemma increasing_upto:
  fixes g :: "nat \<Rightarrow> int"
  assumes "\<forall>i \<in> {0..<n}. g i < g (Suc i)" and "i \<le> n"
  shows "g i \<le> g n"
  using assms
proof (induction n)
  case 0
  then show ?case by simp
next
  case (Suc n)
  show ?case
  proof (cases "i = Suc n")
    case True
    then show ?thesis by simp
  next
    case False
    with Suc.prems have "i \<le> n" by simp
    moreover have "\<forall>i \<in> {0..<n}. g i < g (Suc i)" using Suc.prems(1) by simp
    ultimately have "g i \<le> g n" by (rule Suc.IH [rotated])
    moreover have "g n < g (Suc n)" using Suc.prems(1) by simp
    ultimately show ?thesis by simp
  qed
qed

lemma tracked_ordered_anchor:
  assumes "tracked_ordered h"
  shows "anchor_not_after_tracked h"
  unfolding anchor_not_after_tracked_def
proof
  fix i assume "i \<in> {1..unat (loss_count h)}"
  then have "i \<le> unat (loss_count h)" by simp
  with assms have "seq_offset h i \<le> seq_offset h (unat (loss_count h))"
    unfolding tracked_ordered_def by (intro increasing_upto) simp_all
  moreover have "seq_offset h (unat (loss_count h)) < 2 ^ 31"
    using assms by (simp add: tracked_ordered_def)
  ultimately have "seq_offset h i < 2 ^ 47" by simp
  then show "\<not> after48 (ucast (tfrchrx_seqno (tfrc_rx_hist_loss_prev h)))
                       (ucast (tfrchrx_seqno (tfrc_rx_hist_entry h i)))"
    by (simp add: after48_delta seq_offset_def)
qed

lemma loss_count_range: "unat (loss_count h) \<in> {0, 1, 2, 3}"
  using word2_cases [of "loss_count h"] by auto

lemma handle_loss_ordered:
  assumes ord: "tracked_ordered h" and new: "packet_is_new h skb"
  shows "tracked_ordered (fst (snd (tfrc_rx_handle_loss f h lh skb ndp now)))"
proof -
  consider (one) "loss_count h = 1" | (two) "loss_count h = 2"
    | (other) "loss_count h \<noteq> 1" "loss_count h \<noteq> 2" by blast
  then show ?thesis
  proof cases
    case one
    with one_after_loss_ordered [OF one ord new] show ?thesis
      by (simp add: tfrc_rx_handle_loss_def)
  next
    case two
    obtain r h2 where t: "two_after_loss h skb ndp now = (r, h2)"
      by (cases "two_after_loss h skb ndp now")
    have o2: "tracked_ordered h2"
      using two_after_loss_ordered [OF two ord new, of ndp now] by (simp add: t)
    show ?thesis
    proof (cases "r = 0")
      case True
      with two t o2 show ?thesis by (simp add: tfrc_rx_handle_loss_def)
    next
      case False
      from two_after_loss_new_loss [OF t False] have "loss_count h2 = 3" by simp
      from three_after_loss_ordered [OF this o2] two t False show ?thesis
        by (simp add: tfrc_rx_handle_loss_def split_def Let_def)
    qed
  next
    case other
    with ord show ?thesis by (simp add: tfrc_rx_handle_loss_def)
  qed
qed

text \<open>
  C2 (as amended). After any sequence of operations \<open>loss_count\<close> is 0, 1, 2 or 3. The
  ordering of the anchor is kept by \<open>tfrc_rx_handle_loss\<close>: if the entries 0 to
  \<open>loss_count\<close> strictly increase, the last one less than \<open>2^31\<close> after the anchor, and
  the packet is after the anchor by less than \<open>2^31\<close> and is none of these entries, then
  after the call the tracked entries again strictly increase within \<open>2^31\<close> of the
  anchor, and the anchor is not after any of them.
\<close>

theorem handle_loss_keeps_order:
  "unat (loss_count (fst (rx_run f m ops s))) \<in> {0, 1, 2, 3} \<and>
   (tracked_ordered h \<and> packet_is_new h skb \<longrightarrow>
      tracked_ordered (fst (snd (tfrc_rx_handle_loss f h lh skb ndp now))) \<and>
      rx_hist_invariant (fst (snd (tfrc_rx_handle_loss f h lh skb ndp now))))"
  using loss_count_range [of "fst (rx_run f m ops s)"]
    loss_count_range [of "fst (snd (tfrc_rx_handle_loss f h lh skb ndp now))"]
    handle_loss_ordered [of h skb f lh ndp now]
    tracked_ordered_anchor [of "fst (snd (tfrc_rx_handle_loss f h lh skb ndp now))"]
  by (auto simp add: rx_hist_invariant_def)

text \<open>Anchor 100 and pending 103 with the packet 102; anchor 100 and pending 102, 103
  with the packet 104, which confirms a loss and has the history recycled.\<close>

lemma scenario_B_ordered: "tracked_ordered scenario_B"
proof -
  have "loss_count scenario_B = 1" by (simp add: scenario_B_def)
  from tracked_ordered_1 [OF this] show ?thesis
    by (simp add: scenario_B_def seq_offset_def tfrc_rx_hist_loss_prev_def tfrc_rx_hist_entry_def
        index_add entry_of_def dccp_delta_seqno_def)
qed

lemma scenario_B_102_new: "packet_is_new scenario_B (skb_of 102 0)"
proof -
  have "unat (loss_count scenario_B) = 1" by (simp add: scenario_B_def)
  moreover have "{0..(1::nat)} = {0, 1}" by auto
  ultimately show ?thesis
    by (simp add: packet_is_new_def)
      (simp add: scenario_B_def skb_of_def packet_offset_def seq_offset_def
        tfrc_rx_hist_loss_prev_def tfrc_rx_hist_entry_def
        index_add entry_of_def dccp_delta_seqno_def)
qed

lemma scenario_C_ordered: "tracked_ordered scenario_C"
proof -
  have "loss_count scenario_C = 2" by (simp add: scenario_C_def)
  from tracked_ordered_2 [OF this] show ?thesis
    by (simp add: scenario_C_def seq_offset_def tfrc_rx_hist_loss_prev_def tfrc_rx_hist_entry_def
        index_add entry_of_def dccp_delta_seqno_def)
qed

lemma scenario_C_104_new: "packet_is_new scenario_C (skb_of 104 0)"
proof -
  have "unat (loss_count scenario_C) = 2" by (simp add: scenario_C_def)
  moreover have "{0..(2::nat)} = {0, 1, 2}" by auto
  ultimately show ?thesis
    by (simp add: packet_is_new_def)
      (simp add: scenario_C_def skb_of_def packet_offset_def seq_offset_def
        tfrc_rx_hist_loss_prev_def tfrc_rx_hist_entry_def
        index_add entry_of_def dccp_delta_seqno_def)
qed

theorem handle_loss_keeps_order_witness:
  "(tracked_ordered scenario_B \<and> packet_is_new scenario_B (skb_of 102 0)) \<and>
   unat (loss_count (fst (rx_run lh_count 3000000 in_order_trace (alloc_hist, 0)))) \<in> {0, 1, 2, 3} \<and>
   tracked_ordered (fst (snd (tfrc_rx_handle_loss lh_count scenario_B 0 (skb_of 102 0) 0 2000))) \<and>
   rx_hist_invariant (fst (snd (tfrc_rx_handle_loss lh_count scenario_B 0 (skb_of 102 0) 0 2000))) \<and>
   (tracked_ordered scenario_C \<and> packet_is_new scenario_C (skb_of 104 0)) \<and>
   tracked_ordered (fst (snd (tfrc_rx_handle_loss lh_count scenario_C 0 (skb_of 104 0) 0 2000))) \<and>
   rx_hist_invariant (fst (snd (tfrc_rx_handle_loss lh_count scenario_C 0 (skb_of 104 0) 0 2000)))"
  using scenario_B_ordered scenario_B_102_new scenario_C_ordered scenario_C_104_new
    handle_loss_keeps_order [of lh_count 3000000 in_order_trace "(alloc_hist, 0)"
      scenario_B "skb_of 102 0" 0 0 2000]
    handle_loss_keeps_order [of lh_count 3000000 in_order_trace "(alloc_hist, 0)"
      scenario_C "skb_of 104 0" 0 0 2000]
  by simp

lemmas run_eval = rx_run_def in_order_trace_def alloc_hist_def tfrc_rx_hist_add_packet_def
  tfrc_rx_hist_last_rcv_index_def tfrc_rx_hist_last_rcv_def index_add
  tfrc_rx_hist_duplicate_def tfrc_rx_hist_new_loss_indicated_def tfrc_rx_hist_loss_indicated_def
  tfrc_rx_hist_loss_pending_def tfrc_rx_hist_entry_from_skb_def
  tfrc_rx_hist_loss_prev_def tfrc_rx_hist_entry_def dccp_delta_seqno_def word_sless_alt

lemma in_order_trace_final:
  "fst (rx_run lh_count 3000000 in_order_trace (alloc_hist, 0)) =
     \<lparr>ring = (\<lambda>i. entry_of 0 0 0)(2 := entry_of 101 1 1010, 0 := entry_of 102 4 1020, 1 := entry_of 103 4 1030),
      loss_count = 1, loss_start = 1\<rparr>"
  by (simp add: run_eval sample_eval)

text \<open>
  The claim as stated fails on the trace of five packets that arrive in order: the RTT
  sampling of 101 and 103 moves \<open>loss_start\<close> to 2 and then to 1, so 101 is recorded in
  slot 2 and 103 in slot 1. When 106 indicates a loss, \<open>loss_count\<close> becomes 1 with the
  anchor in slot 1 and entry 1 in slot 2: the anchor 103 is after the tracked entry 101.
\<close>

theorem in_order_trace_breaks_ordering:
  "tfrc_rx_hist_alloc True (\<lambda>i. entry_of 0 0 0) = Inr alloc_hist \<and>
   loss_count (fst (rx_run lh_count 3000000 in_order_trace (alloc_hist, 0))) = 1 \<and>
   tfrchrx_seqno (tfrc_rx_hist_loss_prev (fst (rx_run lh_count 3000000 in_order_trace (alloc_hist, 0)))) = 103 \<and>
   tfrchrx_seqno (tfrc_rx_hist_entry (fst (rx_run lh_count 3000000 in_order_trace (alloc_hist, 0))) 1) = 101 \<and>
   after48 103 101 \<and>
   \<not> rx_hist_invariant (fst (rx_run lh_count 3000000 in_order_trace (alloc_hist, 0)))"
proof -
  have "tfrc_rx_hist_alloc True (\<lambda>i. entry_of 0 0 0) = Inr alloc_hist"
    by (simp add: tfrc_rx_hist_alloc_def alloc_hist_def)
  then show ?thesis
    by (simp add: in_order_trace_final rx_hist_invariant_def
      anchor_not_after_tracked_def tfrc_rx_hist_loss_prev_def tfrc_rx_hist_entry_def index_add
      entry_of_def after48_def)
qed

end
